theory Spec2Isabelle
  imports Complex_Main
begin

section \<open>The query planner of Planner/Planner.cpp\<close>

text \<open>
  The development embeds \<^verbatim>\<open>Planner::Optimizer\<close> (Planner.cpp, lines 77 to 249).  Every
  member function of the optimizer becomes a function on an explicit optimizer state; a C++
  exception, a failed \<^verbatim>\<open>assert\<close> and an access the language leaves undefined each become
  an error value.
\<close>

subsection \<open>Errors\<close>

text \<open>
  \<^item> \<open>RuntimeError msg\<close>: \<^verbatim>\<open>throw std::runtime_error(msg)\<close>, the catchable failure;
  \<^item> \<open>AssertionFailed\<close>: \<^verbatim>\<open>assert\<close> on a false condition, which aborts;
  \<^item> \<open>NullDereference\<close>: a member access through a null \<^verbatim>\<open>cur_plan\<close>;
  \<^item> \<open>IndexOutOfRange\<close>: \<^verbatim>\<open>base_scans[i]\<close> with \<open>i\<close> outside the vector, and
    \<^verbatim>\<open>front()\<close> of an empty range table;
  \<^item> \<open>IndeterminateIndex\<close>: \<^verbatim>\<open>rte_idx\<close> read although the loop over an empty
    \<^verbatim>\<open>rte_idx_set\<close> never assigned it.
\<close>

datatype error =
    RuntimeError string
  | AssertionFailed
  | NullDereference
  | IndexOutOfRange
  | IndeterminateIndex

subsection \<open>The analyzed query\<close>

datatype SQLStmtType = kSELECT | kINSERT | kUPDATE | kDELETE

record ColumnDescriptor =
  columnId :: int

record RangeTblEntry =
  get_table_id :: int
  get_column_descs :: "ColumnDescriptor list"

datatype 'e TargetEntry = TargetEntry (get_resname: string) (get_expr: 'e)

text \<open>
  Modelled from the spec: \<^verbatim>\<open>Analyzer::OrderEntry\<close>, declared in Analyzer.h.  The spec has an
  order entry pair an expression with a direction.  The planner never looks inside one; it
  only tests the pointer to the list.
\<close>

datatype 'e OrderEntry = OrderEntry (get_order_expr: 'e) (is_desc: bool)

datatype 'e Query = Query
  (get_stmt_type: SQLStmtType)
  (get_rangetable: "RangeTblEntry list")
  (get_targetlist: "'e TargetEntry list")
  (get_where_predicate: "'e option")
  (get_group_by: "'e list option")
  (get_having_predicate: "'e option")
  (get_order_by: "'e OrderEntry list option")
  (get_next_query: "'e Query option")
  (get_num_aggs: int)

subsection \<open>The expression collaborator\<close>

text \<open>
  \<^verbatim>\<open>Analyzer::Expr\<close> is declared in Analyzer.h, outside Planner.cpp.  The planner uses it
  through the member functions below and nothing else, so the expression type is a type
  variable \<open>'e\<close> and the member functions are the fields of a record that every planner
  function takes as its first argument.  An out-parameter becomes a result:
  \<^item> \<open>group_predicates e\<close> gives the conjuncts that \<^verbatim>\<open>group_predicates\<close> appends to its
    scan, join and constant list, in that order;
  \<^item> \<open>normalize_simple_predicate e\<close> is \<open>None\<close> for a null result, and otherwise the simple
    predicate with the \<^verbatim>\<open>rte_idx\<close> written through the reference;
  \<^item> \<open>collect_rte_idx e\<close> lists the indices inserted into the \<^verbatim>\<open>std::set<int>\<close>;
  \<^item> \<open>collect_column_var e\<close> lists the column references of \<open>e\<close> in the order in which
    they are offered to the \<^verbatim>\<open>std::set\<close>; \<open>get_rte_idx\<close> and \<open>get_column_id\<close> read one.
  The member functions are taken to return normally.
\<close>

record 'e Analyzer =
  group_predicates :: "'e \<Rightarrow> 'e list \<times> 'e list \<times> 'e list"
  normalize_simple_predicate :: "'e \<Rightarrow> ('e \<times> int) option"
  collect_rte_idx :: "'e \<Rightarrow> int list"
  collect_column_var :: "'e \<Rightarrow> 'e list"
  get_rte_idx :: "'e \<Rightarrow> int"
  get_column_id :: "'e \<Rightarrow> int"
  deep_copy :: "'e \<Rightarrow> 'e"
  rewrite_with_targetlist :: "'e \<Rightarrow> 'e TargetEntry list \<Rightarrow> 'e"
  rewrite_with_child_targetlist :: "'e \<Rightarrow> 'e TargetEntry list \<Rightarrow> 'e"
  rewrite_having_clause :: "'e \<Rightarrow> 'e TargetEntry list \<Rightarrow> 'e"

subsection \<open>Plan nodes\<close>

text \<open>
  The base class \<^verbatim>\<open>Plan\<close> holds \<open>targetlist\<close>, \<open>quals\<close>, \<open>cost\<close> and \<open>child_plan\<close>;
  \<^verbatim>\<open>Scan\<close> adds \<open>simple_quals\<close>, \<open>table_id\<close> and \<open>col_list\<close>, and \<^verbatim>\<open>AggPlan\<close> adds
  \<open>groupby_list\<close>.  The optimizer constructs these three node kinds only.  A null
  \<^verbatim>\<open>Plan*\<close> is \<open>None\<close>.
\<close>

datatype 'e Plan =
    Scan
      (get_plan_targetlist: "'e TargetEntry list") (get_quals: "'e list") (get_cost: real)
      (get_child_plan: "'e Plan option")
      (get_simple_quals: "'e list") (get_scan_table_id: int) (get_col_list: "int list")
  | ValuesScan
      (get_plan_targetlist: "'e TargetEntry list") (get_quals: "'e list") (get_cost: real)
      (get_child_plan: "'e Plan option")
  | AggPlan
      (get_plan_targetlist: "'e TargetEntry list") (get_quals: "'e list") (get_cost: real)
      (get_child_plan: "'e Plan option")
      (get_groupby_list: "'e list")

record 'e RootPlan =
  get_plan :: "'e Plan option"
  get_root_stmt_type :: SQLStmtType
  get_result_table_id :: int
  get_result_col_list :: "int list"

text \<open>\<^verbatim>\<open>Scan::Scan(const RangeTblEntry &rte) : Plan()\<close>, lines 70 to 75.\<close>

definition new_Scan :: "RangeTblEntry \<Rightarrow> 'e Plan" where
  "new_Scan rte = Scan [] [] 0 None [] (get_table_id rte) (map columnId (get_column_descs rte))"

text \<open>
  Modelled from the spec: \<^verbatim>\<open>Plan::add_tle\<close>, an inline member of Planner.h.  The spec has
  the target entry appended to the target list of the scan.
\<close>

fun add_tle :: "'e TargetEntry \<Rightarrow> 'e Plan \<Rightarrow> 'e Plan" where
  "add_tle tle (Scan tlist qs c ch sq t cl) = Scan (tlist @ [tle]) qs c ch sq t cl"
| "add_tle tle (ValuesScan tlist qs c ch) = ValuesScan (tlist @ [tle]) qs c ch"
| "add_tle tle (AggPlan tlist qs c ch g) = AggPlan (tlist @ [tle]) qs c ch g"

text \<open>
  Modelled from the spec: \<^verbatim>\<open>Plan::add_predicate\<close>, an inline member of Planner.h.  The spec
  has the predicate attached to the ordinary quals list of the scan; the list is extended at
  its end.
\<close>

fun add_predicate :: "'e \<Rightarrow> 'e Plan \<Rightarrow> 'e Plan" where
  "add_predicate p (Scan tlist qs c ch sq t cl) = Scan tlist (qs @ [p]) c ch sq t cl"
| "add_predicate p (ValuesScan tlist qs c ch) = ValuesScan tlist (qs @ [p]) c ch"
| "add_predicate p (AggPlan tlist qs c ch g) = AggPlan tlist (qs @ [p]) c ch g"

text \<open>
  Modelled from the spec: \<^verbatim>\<open>Scan::add_simple_predicate\<close>, an inline member of Planner.h.
  The spec has the simple predicate attached to the \<open>simple_quals\<close> list of the scan; the
  list is extended at its end.  Only a scan has the member; the vector of base scans holds
  scans only.
\<close>

fun add_simple_predicate :: "'e \<Rightarrow> 'e Plan \<Rightarrow> 'e Plan" where
  "add_simple_predicate p (Scan tlist qs c ch sq t cl) = Scan tlist qs c ch (sq @ [p]) t cl"
| "add_simple_predicate p pl = pl"

text \<open>
  Modelled from the spec: \<^verbatim>\<open>Plan::set_targetlist\<close>, an inline member of Planner.h.  The spec
  has the old target list of the plan replaced in place with the new one.
\<close>

fun set_targetlist :: "'e TargetEntry list \<Rightarrow> 'e Plan \<Rightarrow> 'e Plan" where
  "set_targetlist tlist' (Scan tlist qs c ch sq t cl) = Scan tlist' qs c ch sq t cl"
| "set_targetlist tlist' (ValuesScan tlist qs c ch) = ValuesScan tlist' qs c ch"
| "set_targetlist tlist' (AggPlan tlist qs c ch g) = AggPlan tlist' qs c ch g"

text \<open>
  Modelled from the spec: the constructor \<^verbatim>\<open>ValuesScan(tlist)\<close> of Planner.h.  The spec has
  the new values scan hold the target list; it is a leaf without predicates.
\<close>

definition new_ValuesScan :: "'e TargetEntry list \<Rightarrow> 'e Plan" where
  "new_ValuesScan tlist = ValuesScan tlist [] 0 None"

subsection \<open>The optimizer state\<close>

text \<open>
  The data members of \<^verbatim>\<open>Optimizer\<close> that the pipeline writes.  The members \<^verbatim>\<open>query\<close>
  and \<^verbatim>\<open>cur_query\<close> denote the same query throughout (line 113) and are passed as an
  argument.

  \<^verbatim>\<open>cur_plan = base_scans[0]\<close> (line 187) copies a pointer: from then on the current plan
  and the first base scan are one node, until line 219 makes a new aggregation node the
  current plan.  The state holds plan nodes by value, so a write through \<^verbatim>\<open>cur_plan\<close>
  is made to both components while they are that one node.
\<close>

record 'e Optimizer =
  base_scans :: "'e Plan list"
  join_predicates :: "'e list"
  const_predicates :: "'e list"
  cur_plan :: "'e Plan option"

text \<open>
  Modelled from the spec: the constructor of \<^verbatim>\<open>Optimizer\<close>, declared in Planner.h.  The
  spec has one optimizer plan one query with state of its own; the containers start empty
  and there is no current plan.
\<close>

definition new_Optimizer :: "'e Optimizer" where
  "new_Optimizer = \<lparr>base_scans = [], join_predicates = [], const_predicates = [], cur_plan = None\<rparr>"

subsection \<open>Element access\<close>

text \<open>
  \<^verbatim>\<open>base_scans[rte_idx]->f(...)\<close>: \<^verbatim>\<open>rte_idx\<close> is an \<^verbatim>\<open>int\<close> and the vector's
  \<^verbatim>\<open>operator[]\<close> is defined only below \<^verbatim>\<open>size()\<close>.  The call mutates the scan in place.
\<close>

definition update_at :: "'a list \<Rightarrow> int \<Rightarrow> ('a \<Rightarrow> 'a) \<Rightarrow> error + 'a list" where
  "update_at xs i f =
     (if 0 \<le> i \<and> i < int (length xs) then Inr (xs[nat i := f (xs ! nat i)])
      else Inl IndexOutOfRange)"

text \<open>
  Lines 152 to 157: the loop over the \<^verbatim>\<open>std::set<int>\<close> breaks after its first element,
  which is the least index inserted; over an empty set it assigns nothing.
\<close>

fun first_of_set :: "int list \<Rightarrow> int option" where
  "first_of_set [] = None"
| "first_of_set (x # xs) = Some (fold min xs x)"

subsection \<open>The set of column references\<close>

text \<open>
  Modelled from the spec: \<^verbatim>\<open>Analyzer::ColumnVar::colvar_comp\<close>, the ordering of the
  \<^verbatim>\<open>std::set\<close> of line 163, is declared in Analyzer.h.  The spec has the column references
  deduplicated by (table index, column id) ordering.
\<close>

definition colvar_comp :: "'e Analyzer \<Rightarrow> 'e \<Rightarrow> 'e \<Rightarrow> bool" where
  "colvar_comp A l r \<longleftrightarrow>
     get_rte_idx A l < get_rte_idx A r \<or>
     (get_rte_idx A l = get_rte_idx A r \<and> get_column_id A l < get_column_id A r)"

text \<open>
  \<^verbatim>\<open>std::set::insert\<close> under a comparison \<open>lt\<close>: the set is kept in ascending order, and
  an element is dropped when the set holds one that is neither less nor greater.
\<close>

fun set_insert :: "('a \<Rightarrow> 'a \<Rightarrow> bool) \<Rightarrow> 'a \<Rightarrow> 'a list \<Rightarrow> 'a list" where
  "set_insert lt x [] = [x]"
| "set_insert lt x (y # ys) =
     (if lt x y then x # y # ys
      else if lt y x then y # set_insert lt x ys
      else y # ys)"

text \<open>\<^verbatim>\<open>e->collect_column_var(colvar_set)\<close> for each \<open>e\<close> of a list, in order.\<close>

definition collect_all :: "'e Analyzer \<Rightarrow> 'e list \<Rightarrow> 'e list \<Rightarrow> 'e list" where
  "collect_all A es colvar_set =
     fold (\<lambda>e cs. fold (set_insert (colvar_comp A)) (collect_column_var A e) cs) es colvar_set"

subsection \<open>optimize_scans, lines 129 to 179\<close>

text \<open>Lines 132 to 141: the loop over the range table, with its flag \<^verbatim>\<open>first\<close>.\<close>

fun build_base_scans ::
  "SQLStmtType \<Rightarrow> bool \<Rightarrow> RangeTblEntry list \<Rightarrow> 'e Plan list \<Rightarrow> 'e Plan list" where
  "build_base_scans ty first [] scans = scans"
| "build_base_scans ty first (rte # rt) scans =
     (if first \<and> ty = kINSERT then build_base_scans ty False rt scans
      else build_base_scans ty first rt (scans @ [new_Scan rte]))"

text \<open>Lines 146 to 160: one scan predicate, then the loop over all of them.\<close>

definition attach_scan_predicate ::
  "'e Analyzer \<Rightarrow> 'e \<Rightarrow> 'e Plan list \<Rightarrow> error + 'e Plan list" where
  "attach_scan_predicate A p scans =
     (case normalize_simple_predicate A p of
        Some (simple_pred, rte_idx) \<Rightarrow> update_at scans rte_idx (add_simple_predicate simple_pred)
      | None \<Rightarrow>
          (case first_of_set (collect_rte_idx A p) of
             None \<Rightarrow> Inl IndeterminateIndex
           | Some rte_idx \<Rightarrow> update_at scans rte_idx (add_predicate (deep_copy A p))))"

fun attach_scan_predicates ::
  "'e Analyzer \<Rightarrow> 'e list \<Rightarrow> 'e Plan list \<Rightarrow> error + 'e Plan list" where
  "attach_scan_predicates A [] scans = Inr scans"
| "attach_scan_predicates A (p # ps) scans =
     (case attach_scan_predicate A p scans of
        Inl e \<Rightarrow> Inl e
      | Inr scans' \<Rightarrow> attach_scan_predicates A ps scans')"

text \<open>Lines 161 to 174: what the four sources insert into \<^verbatim>\<open>colvar_set\<close>.\<close>

definition query_colvar_set :: "'e Analyzer \<Rightarrow> 'e Query \<Rightarrow> 'e list \<Rightarrow> 'e list" where
  "query_colvar_set A q join_preds =
     (let cs1 = collect_all A (map get_expr (get_targetlist q)) [];
          cs2 = collect_all A join_preds cs1;
          cs3 = (case get_group_by q of None \<Rightarrow> cs2 | Some group_by \<Rightarrow> collect_all A group_by cs2)
      in case get_having_predicate q of
           None \<Rightarrow> cs3
         | Some having_pred \<Rightarrow> collect_all A [having_pred] cs3)"

text \<open>Lines 175 to 178: one target entry per element of the set.\<close>

fun attach_colvars :: "'e Analyzer \<Rightarrow> 'e list \<Rightarrow> 'e Plan list \<Rightarrow> error + 'e Plan list" where
  "attach_colvars A [] scans = Inr scans"
| "attach_colvars A (colvar # cs) scans =
     (case update_at scans (get_rte_idx A colvar)
             (add_tle (TargetEntry [] (deep_copy A colvar))) of
        Inl e \<Rightarrow> Inl e
      | Inr scans' \<Rightarrow> attach_colvars A cs scans')"

definition where_groups :: "'e Analyzer \<Rightarrow> 'e Query \<Rightarrow> 'e list \<times> 'e list \<times> 'e list" where
  "where_groups A q =
     (case get_where_predicate q of
        None \<Rightarrow> ([], [], [])
      | Some where_pred \<Rightarrow> group_predicates A where_pred)"

definition optimize_scans ::
  "'e Analyzer \<Rightarrow> 'e Query \<Rightarrow> 'e Optimizer \<Rightarrow> error + 'e Optimizer" where
  "optimize_scans A q st =
     (let scans0 = build_base_scans (get_stmt_type q) True (get_rangetable q) (base_scans st);
          (scan_predicates, joins, consts) = where_groups A q;
          join_preds = join_predicates st @ joins;
          const_preds = const_predicates st @ consts
      in case attach_scan_predicates A scan_predicates scans0 of
           Inl e \<Rightarrow> Inl e
         | Inr scans1 \<Rightarrow>
             (case attach_colvars A (query_colvar_set A q join_preds) scans1 of
                Inl e \<Rightarrow> Inl e
              | Inr scans2 \<Rightarrow>
                  Inr (st\<lparr>base_scans := scans2, join_predicates := join_preds,
                          const_predicates := const_preds\<rparr>)))"

subsection \<open>optimize_joins, lines 181 to 190\<close>

definition optimize_joins :: "'e Optimizer \<Rightarrow> error + 'e Optimizer" where
  "optimize_joins st =
     (if length (base_scans st) = 0 then Inr (st\<lparr>cur_plan := None\<rparr>)
      else if length (base_scans st) = 1 then Inr (st\<lparr>cur_plan := Some (base_scans st ! 0)\<rparr>)
      else Inl (RuntimeError ''joins are not supported yet.''))"

subsection \<open>optimize_aggs, lines 192 to 220\<close>

text \<open>
  A loop whose body evaluates \<^verbatim>\<open>cur_plan->get_targetlist()\<close>: with no element the body
  never runs; otherwise the first iteration reads through \<^verbatim>\<open>cur_plan\<close>.
\<close>

definition map_with_cur_targetlist ::
  "'e Plan option \<Rightarrow> ('a \<Rightarrow> 'e TargetEntry list \<Rightarrow> 'b) \<Rightarrow> 'a list \<Rightarrow> error + 'b list" where
  "map_with_cur_targetlist cp f xs =
     (if xs = [] then Inr []
      else case cp of
             None \<Rightarrow> Inl NullDereference
           | Some pl \<Rightarrow> Inr (map (\<lambda>x. f x (get_plan_targetlist pl)) xs))"

text \<open>
  Lines 209 to 218.  The call \<^verbatim>\<open>group_predicates(preds, others, others)\<close> passes one list
  for the join and the constant conjuncts; only its emptiness is read.
\<close>

definition having_quals ::
  "'e Analyzer \<Rightarrow> 'e Query \<Rightarrow> 'e TargetEntry list \<Rightarrow> error + 'e list" where
  "having_quals A q agg_tlist =
     (case get_having_predicate q of
        None \<Rightarrow> Inr []
      | Some having_pred \<Rightarrow>
          (let (preds, joins, consts) = group_predicates A having_pred;
               others = joins @ consts
           in if others \<noteq> [] then Inl AssertionFailed
              else Inr (map (\<lambda>p. rewrite_having_clause A p agg_tlist) preds)))"

definition optimize_aggs ::
  "'e Analyzer \<Rightarrow> 'e Query \<Rightarrow> 'e Optimizer \<Rightarrow> error + 'e Optimizer" where
  "optimize_aggs A q st =
     (if get_num_aggs q = 0 \<and> get_having_predicate q = None then Inr st
      else
        case map_with_cur_targetlist (cur_plan st)
               (\<lambda>tle ctl. TargetEntry (get_resname tle)
                             (rewrite_with_child_targetlist A (get_expr tle) ctl))
               (get_targetlist q) of
          Inl e \<Rightarrow> Inl e
        | Inr agg_tlist \<Rightarrow>
            (case map_with_cur_targetlist (cur_plan st)
                    (\<lambda>e ctl. rewrite_with_child_targetlist A e ctl)
                    (case get_group_by q of None \<Rightarrow> [] | Some group_by \<Rightarrow> group_by) of
               Inl e \<Rightarrow> Inl e
             | Inr groupby_list \<Rightarrow>
                 (case having_quals A q agg_tlist of
                    Inl e \<Rightarrow> Inl e
                  | Inr hquals \<Rightarrow>
                      Inr (st\<lparr>cur_plan :=
                                Some (AggPlan agg_tlist hquals 0 (cur_plan st) groupby_list)\<rparr>))))"

subsection \<open>optimize_orderby and process_targetlist, lines 222 to 249\<close>

definition optimize_orderby :: "'e Query \<Rightarrow> error + unit" where
  "optimize_orderby q =
     (if get_order_by q \<noteq> None then Inl (RuntimeError ''order by not supported yet.'')
      else Inr ())"

definition final_tlist :: "'e Analyzer \<Rightarrow> 'e Query \<Rightarrow> 'e Plan option \<Rightarrow> 'e TargetEntry list" where
  "final_tlist A q cp =
     map (\<lambda>tle. case cp of
                  None \<Rightarrow> TargetEntry (get_resname tle) (deep_copy A (get_expr tle))
                | Some pl \<Rightarrow>
                    TargetEntry (get_resname tle)
                      (rewrite_with_targetlist A (get_expr tle) (get_plan_targetlist pl)))
         (get_targetlist q)"

text \<open>
  Whether \<^verbatim>\<open>cur_plan\<close> points to the node \<^verbatim>\<open>base_scans[0]\<close>.  In a state that the stages
  before \<^verbatim>\<open>process_targetlist\<close> produce, the current plan is null, that scan, or a new
  aggregation node, so it is that node exactly when it equals it.
\<close>

definition cur_plan_is_first_scan :: "'e Optimizer \<Rightarrow> bool" where
  "cur_plan_is_first_scan st \<longleftrightarrow> base_scans st \<noteq> [] \<and> cur_plan st = Some (base_scans st ! 0)"

text \<open>
  Lines 229 to 249.  \<^verbatim>\<open>cur_plan->set_targetlist(final_tlist)\<close> changes the node that
  \<^verbatim>\<open>cur_plan\<close> points to; when that node is the first base scan, the vector of base scans
  shows the new target list too.
\<close>

definition process_targetlist :: "'e Analyzer \<Rightarrow> 'e Query \<Rightarrow> 'e Optimizer \<Rightarrow> 'e Optimizer" where
  "process_targetlist A q st =
     (let ftl = final_tlist A q (cur_plan st)
      in case cur_plan st of
           None \<Rightarrow> st\<lparr>cur_plan := Some (new_ValuesScan ftl)\<rparr>
         | Some pl \<Rightarrow>
             (if cur_plan_is_first_scan st
              then st\<lparr>base_scans := (base_scans st)[0 := set_targetlist ftl pl],
                      cur_plan := Some (set_targetlist ftl pl)\<rparr>
              else st\<lparr>cur_plan := Some (set_targetlist ftl pl)\<rparr>))"

subsection \<open>The pipeline, lines 77 to 127\<close>

definition optimize_current_query ::
  "'e Analyzer \<Rightarrow> 'e Query \<Rightarrow> 'e Optimizer \<Rightarrow> error + 'e Optimizer" where
  "optimize_current_query A q st =
     (case optimize_scans A q st of
        Inl e \<Rightarrow> Inl e
      | Inr st1 \<Rightarrow>
          (case optimize_joins st1 of
             Inl e \<Rightarrow> Inl e
           | Inr st2 \<Rightarrow>
               (case optimize_aggs A q st2 of
                  Inl e \<Rightarrow> Inl e
                | Inr st3 \<Rightarrow> Inr (process_targetlist A q st3))))"

definition optimize_query ::
  "'e Analyzer \<Rightarrow> 'e Query \<Rightarrow> 'e Optimizer \<Rightarrow> error + 'e Plan option" where
  "optimize_query A q st =
     (if get_next_query q \<noteq> None then Inl (RuntimeError ''UNION queries are not supported yet.'')
      else case optimize_current_query A q st of
             Inl e \<Rightarrow> Inl e
           | Inr st' \<Rightarrow>
               (if get_order_by q \<noteq> None
                then (case optimize_orderby q of Inl e \<Rightarrow> Inl e | Inr u \<Rightarrow> Inr (cur_plan st'))
                else Inr (cur_plan st')))"

text \<open>
  \<^verbatim>\<open>optimize\<close>: the switch on the statement type, then the pipeline on a fresh optimizer.
  \<^verbatim>\<open>get_rangetable().front()\<close> needs a non-empty range table.
\<close>

definition optimize :: "'e Analyzer \<Rightarrow> 'e Query \<Rightarrow> error + 'e RootPlan" where
  "optimize A q =
     (case (case get_stmt_type q of
              kSELECT \<Rightarrow> Inr (0, [])
            | kINSERT \<Rightarrow>
                (case get_rangetable q of
                   [] \<Rightarrow> Inl IndexOutOfRange
                 | result_rte # rest \<Rightarrow>
                     Inr (get_table_id result_rte, map columnId (get_column_descs result_rte)))
            | kUPDATE \<Rightarrow> Inl AssertionFailed
            | kDELETE \<Rightarrow> Inl AssertionFailed) of
        Inl e \<Rightarrow> Inl e
      | Inr (result_table_id, result_col_list) \<Rightarrow>
          (case optimize_query A q new_Optimizer of
             Inl e \<Rightarrow> Inl e
           | Inr pl \<Rightarrow>
               Inr \<lparr>get_plan = pl, get_root_stmt_type = get_stmt_type q,
                    get_result_table_id = result_table_id,
                    get_result_col_list = result_col_list\<rparr>))"

subsection \<open>A sample expression collaborator\<close>

text \<open>
  Modelled from the spec: \<^verbatim>\<open>Analyzer::Expr\<close> and its member functions, declared in
  Analyzer.h.  The spec has the collaborator split a boolean expression into single-table,
  multi-table and constant conjuncts, detect a column-versus-constant comparison, collect
  column references and range-table indices, copy an expression, and rewrite an expression
  to refer to the positions of a target list.  The sample below does each on a small
  expression language; the planner is evaluated with it on concrete queries.
\<close>

datatype Expr =
    ColumnVar int int
  | Constant int
  | BinOper string Expr Expr
  | AggExpr string Expr
  | Var int

text \<open>Modelled from the spec: the column references of an expression, left to right.\<close>

fun column_vars :: "Expr \<Rightarrow> Expr list" where
  "column_vars (ColumnVar i c) = [ColumnVar i c]"
| "column_vars (Constant k) = []"
| "column_vars (BinOper opr l r) = column_vars l @ column_vars r"
| "column_vars (AggExpr f a) = column_vars a"
| "column_vars (Var k) = []"

text \<open>Modelled from the spec: the table index and the column id of a column reference.\<close>

fun colvar_rte_idx :: "Expr \<Rightarrow> int" where
  "colvar_rte_idx (ColumnVar i c) = i"
| "colvar_rte_idx e = - 1"

fun colvar_column_id :: "Expr \<Rightarrow> int" where
  "colvar_column_id (ColumnVar i c) = c"
| "colvar_column_id e = - 1"

text \<open>Modelled from the spec: the operands of the top-level conjunction.\<close>

fun conjuncts :: "Expr \<Rightarrow> Expr list" where
  "conjuncts (BinOper opr l r) =
     (if opr = ''AND'' then conjuncts l @ conjuncts r else [BinOper opr l r])"
| "conjuncts e = [e]"

text \<open>Modelled from the spec: the distinct range-table indices an expression refers to.\<close>

definition tables_of :: "Expr \<Rightarrow> int list" where
  "tables_of e = remdups (map colvar_rte_idx (column_vars e))"

text \<open>
  Modelled from the spec: the three-way decomposition into the conjuncts that refer to exactly
  one table, to two or more tables, and to no table.
\<close>

definition sample_group_predicates :: "Expr \<Rightarrow> Expr list \<times> Expr list \<times> Expr list" where
  "sample_group_predicates e =
     (filter (\<lambda>c. length (tables_of c) = 1) (conjuncts e),
      filter (\<lambda>c. 2 \<le> length (tables_of c)) (conjuncts e),
      filter (\<lambda>c. length (tables_of c) = 0) (conjuncts e))"

text \<open>
  Modelled from the spec: a simple predicate compares a single column with a constant and
  names the range-table index of the column.
\<close>

fun sample_normalize :: "Expr \<Rightarrow> (Expr \<times> int) option" where
  "sample_normalize (BinOper opr (ColumnVar i c) (Constant k)) =
     (if opr \<in> set [''='', ''<'', ''>'', ''<='', ''>='', ''<>'']
      then Some (BinOper opr (ColumnVar i c) (Constant k), i) else None)"
| "sample_normalize e = None"

text \<open>Modelled from the spec: the position, from \<open>k\<close>, of an element in a list.\<close>

fun position_of :: "'a \<Rightarrow> 'a list \<Rightarrow> int \<Rightarrow> int option" where
  "position_of x [] k = None"
| "position_of x (y # ys) k = (if x = y then Some k else position_of x ys (k + 1))"

text \<open>
  Modelled from the spec: rewriting makes an expression refer to the position, within a target
  list, of the entry that computes it.
\<close>

fun sample_rewrite :: "Expr \<Rightarrow> Expr TargetEntry list \<Rightarrow> Expr" where
  "sample_rewrite (BinOper opr l r) tlist =
     (case position_of (BinOper opr l r) (map get_expr tlist) 1 of
        Some k \<Rightarrow> Var k
      | None \<Rightarrow> BinOper opr (sample_rewrite l tlist) (sample_rewrite r tlist))"
| "sample_rewrite (AggExpr f a) tlist =
     (case position_of (AggExpr f a) (map get_expr tlist) 1 of
        Some k \<Rightarrow> Var k
      | None \<Rightarrow> AggExpr f (sample_rewrite a tlist))"
| "sample_rewrite e tlist =
     (case position_of e (map get_expr tlist) 1 of Some k \<Rightarrow> Var k | None \<Rightarrow> e)"

text \<open>Modelled from the spec: the sample collaborator; a copy of a value is the value.\<close>

definition sample_analyzer :: "Expr Analyzer" where
  "sample_analyzer =
     \<lparr>group_predicates = sample_group_predicates,
      normalize_simple_predicate = sample_normalize,
      collect_rte_idx = (\<lambda>e. map colvar_rte_idx (column_vars e)),
      collect_column_var = column_vars,
      get_rte_idx = colvar_rte_idx,
      get_column_id = colvar_column_id,
      deep_copy = (\<lambda>e. e),
      rewrite_with_targetlist = sample_rewrite,
      rewrite_with_child_targetlist = sample_rewrite,
      rewrite_having_clause = sample_rewrite\<rparr>"

text \<open>Two tables: table 10 with columns 1 and 2, table 20 with column 1.\<close>

definition rte_t :: RangeTblEntry where
  "rte_t = \<lparr>get_table_id = 10, get_column_descs = [\<lparr>columnId = 1\<rparr>, \<lparr>columnId = 2\<rparr>]\<rparr>"

definition rte_s :: RangeTblEntry where
  "rte_s = \<lparr>get_table_id = 20, get_column_descs = [\<lparr>columnId = 1\<rparr>]\<rparr>"

text \<open>
  Sample queries.  Column 1 of table 10 is \<open>a\<close> and column 2 is \<open>b\<close>; an aggregate is
  written \<open>AggExpr ''COUNT'' (Constant 1)\<close>.
  \<^item> \<open>q_where\<close>: SELECT a FROM t WHERE a > 5 AND a = b;
  \<^item> \<open>q_group\<close>: SELECT b, COUNT(1) FROM t GROUP BY b;
  \<^item> \<open>q_const\<close>: SELECT 1 + 1;
  \<^item> \<open>q_insert\<close>: INSERT INTO t VALUES (1, 2);
  \<^item> \<open>q_insert_select\<close>: INSERT INTO t SELECT s.c FROM s;
  \<^item> \<open>q_count_no_from\<close>: SELECT COUNT(1);
  \<^item> \<open>q_having_join\<close>: SELECT COUNT(1) FROM t, s HAVING t.a = s.c;
  \<^item> \<open>q_having_const\<close>: SELECT COUNT(1) FROM t HAVING 1 = 1;
  \<^item> \<open>q_having_orderby\<close>: the same with ORDER BY COUNT(1);
  \<^item> \<open>q_orderby\<close>: SELECT a FROM t ORDER BY a DESC.
\<close>

definition q_where :: "Expr Query" where
  "q_where = Query kSELECT [rte_t]
     [TargetEntry ''a'' (ColumnVar 0 1)]
     (Some (BinOper ''AND'' (BinOper ''>'' (ColumnVar 0 1) (Constant 5))
                           (BinOper ''='' (ColumnVar 0 1) (ColumnVar 0 2))))
     None None None None 0"

definition q_group :: "Expr Query" where
  "q_group = Query kSELECT [rte_t]
     [TargetEntry ''b'' (ColumnVar 0 2), TargetEntry ''n'' (AggExpr ''COUNT'' (Constant 1))]
     None (Some [ColumnVar 0 2]) None None None 1"

definition q_const :: "Expr Query" where
  "q_const = Query kSELECT []
     [TargetEntry ''two'' (BinOper ''+'' (Constant 1) (Constant 1))]
     None None None None None 0"

definition q_insert :: "Expr Query" where
  "q_insert = Query kINSERT [rte_t]
     [TargetEntry [] (Constant 1), TargetEntry [] (Constant 2)]
     None None None None None 0"

definition q_insert_select :: "Expr Query" where
  "q_insert_select = Query kINSERT [rte_t, rte_s]
     [TargetEntry ''c'' (ColumnVar 1 1)]
     None None None None None 0"

definition q_count_no_from :: "Expr Query" where
  "q_count_no_from = Query kSELECT []
     [TargetEntry ''n'' (AggExpr ''COUNT'' (Constant 1))]
     None None None None None 1"

definition q_having_join :: "Expr Query" where
  "q_having_join = Query kSELECT [rte_t, rte_s]
     [TargetEntry ''n'' (AggExpr ''COUNT'' (Constant 1))]
     None None (Some (BinOper ''='' (ColumnVar 0 1) (ColumnVar 1 1))) None None 1"

definition q_having_const :: "Expr Query" where
  "q_having_const = Query kSELECT [rte_t]
     [TargetEntry ''n'' (AggExpr ''COUNT'' (Constant 1))]
     None None (Some (BinOper ''='' (Constant 1) (Constant 1))) None None 1"

definition q_having_orderby :: "Expr Query" where
  "q_having_orderby = Query kSELECT [rte_t]
     [TargetEntry ''n'' (AggExpr ''COUNT'' (Constant 1))]
     None None (Some (BinOper ''='' (Constant 1) (Constant 1)))
     (Some [OrderEntry (AggExpr ''COUNT'' (Constant 1)) False]) None 1"

definition q_orderby :: "Expr Query" where
  "q_orderby = Query kSELECT [rte_t]
     [TargetEntry ''a'' (ColumnVar 0 1)]
     None None None (Some [OrderEntry (ColumnVar 0 1) True]) None 0"

text \<open>
  A third table, 30 with column 1, and further sample queries.
  \<^item> \<open>q_insert_where\<close>: INSERT INTO t SELECT s.c FROM s WHERE s.c > 5;
  \<^item> \<open>q_insert_where_cross\<close>: INSERT INTO t SELECT s.c FROM s, u WHERE s.c > 5 AND s.c = s.c;
  \<^item> \<open>q_insert_group\<close>: INSERT INTO t SELECT s.c FROM s GROUP BY s.c;
  \<^item> \<open>q_insert_group_cross\<close>: INSERT INTO t SELECT s.c FROM s, u GROUP BY s.c;
  \<^item> \<open>q_union_orderby\<close>: \<open>q_orderby\<close> with a link to a next query;
  \<^item> \<open>q_join_orderby\<close>: SELECT t.a FROM t, s ORDER BY t.a DESC;
  \<^item> \<open>q_update_orderby\<close>: \<open>q_orderby\<close> as an UPDATE statement.
\<close>

definition rte_u :: RangeTblEntry where
  "rte_u = \<lparr>get_table_id = 30, get_column_descs = [\<lparr>columnId = 1\<rparr>]\<rparr>"

definition q_insert_where :: "Expr Query" where
  "q_insert_where = Query kINSERT [rte_t, rte_s]
     [TargetEntry ''c'' (ColumnVar 1 1)]
     (Some (BinOper ''>'' (ColumnVar 1 1) (Constant 5)))
     None None None None 0"

definition q_insert_where_cross :: "Expr Query" where
  "q_insert_where_cross = Query kINSERT [rte_t, rte_s, rte_u]
     [TargetEntry ''c'' (ColumnVar 1 1)]
     (Some (BinOper ''AND'' (BinOper ''>'' (ColumnVar 1 1) (Constant 5))
                           (BinOper ''='' (ColumnVar 1 1) (ColumnVar 1 1))))
     None None None None 0"

definition q_insert_group :: "Expr Query" where
  "q_insert_group = Query kINSERT [rte_t, rte_s]
     [TargetEntry ''c'' (ColumnVar 1 1)]
     None (Some [ColumnVar 1 1]) None None None 0"

definition q_insert_group_cross :: "Expr Query" where
  "q_insert_group_cross = Query kINSERT [rte_t, rte_s, rte_u]
     [TargetEntry ''c'' (ColumnVar 1 1)]
     None (Some [ColumnVar 1 1]) None None None 0"

definition q_union_orderby :: "Expr Query" where
  "q_union_orderby = Query kSELECT [rte_t]
     [TargetEntry ''a'' (ColumnVar 0 1)]
     None None None (Some [OrderEntry (ColumnVar 0 1) True]) (Some q_orderby) 0"

definition q_join_orderby :: "Expr Query" where
  "q_join_orderby = Query kSELECT [rte_t, rte_s]
     [TargetEntry ''a'' (ColumnVar 0 1)]
     None None None (Some [OrderEntry (ColumnVar 0 1) True]) None 0"

definition q_update_orderby :: "Expr Query" where
  "q_update_orderby = Query kUPDATE [rte_t]
     [TargetEntry ''a'' (ColumnVar 0 1)]
     None None None (Some [OrderEntry (ColumnVar 0 1) True]) None 0"

text \<open>The optimizer after the scans stage of \<open>q_where\<close>.\<close>

definition st_where :: "Expr Optimizer" where
  "st_where =
     \<lparr>base_scans =
        [Scan [TargetEntry [] (ColumnVar 0 1)]
           [BinOper ''='' (ColumnVar 0 1) (ColumnVar 0 2)] 0 None
           [BinOper ''>'' (ColumnVar 0 1) (Constant 5)] 10 [1, 2]],
      join_predicates = [], const_predicates = [], cur_plan = None\<rparr>"

text \<open>The optimizer after the scans stage of \<open>q_group\<close>.\<close>

definition st_group :: "Expr Optimizer" where
  "st_group =
     \<lparr>base_scans = [Scan [TargetEntry [] (ColumnVar 0 2)] [] 0 None [] 10 [1, 2]],
      join_predicates = [], const_predicates = [], cur_plan = None\<rparr>"

subsection \<open>Statements that reach the pipeline\<close>

text \<open>
  The switch of \<^verbatim>\<open>optimize\<close> (lines 85 to 102) goes on to \<^verbatim>\<open>optimize_query\<close> for a
  SELECT, and for an INSERT whose range table has the destination entry to read.
\<close>

definition passes_statement_switch :: "'e Query \<Rightarrow> bool" where
  "passes_statement_switch q \<longleftrightarrow>
     get_stmt_type q = kSELECT \<or> (get_stmt_type q = kINSERT \<and> get_rangetable q \<noteq> [])"

subsection \<open>What a scan is expected to hold\<close>

text \<open>
  The simple predicates and the ordinary predicates that the scan predicates \<open>ps\<close> name for
  the scan at index \<open>i\<close>, each in the order of \<open>ps\<close>: the first list takes the normalized
  form of every predicate that normalizes with index \<open>i\<close>, the second a deep copy of every
  predicate that does not normalize and whose least referenced index is \<open>i\<close>.
\<close>

definition simple_quals_for :: "'e Analyzer \<Rightarrow> int \<Rightarrow> 'e list \<Rightarrow> 'e list" where
  "simple_quals_for A i ps =
     List.map_filter
       (\<lambda>p. case normalize_simple_predicate A p of
              Some (simple_pred, rte_idx) \<Rightarrow> if rte_idx = i then Some simple_pred else None
            | None \<Rightarrow> None) ps"

definition quals_for :: "'e Analyzer \<Rightarrow> int \<Rightarrow> 'e list \<Rightarrow> 'e list" where
  "quals_for A i ps =
     List.map_filter
       (\<lambda>p. case normalize_simple_predicate A p of
              Some x \<Rightarrow> None
            | None \<Rightarrow>
                if first_of_set (collect_rte_idx A p) = Some i then Some (deep_copy A p)
                else None) ps"

text \<open>
  The (table index, column id) pair of a column reference, the anonymous target entries that
  a set of column references yields for the scan at index \<open>i\<close>, and every column reference
  that lines 161 to 174 offer to the set.
\<close>

definition colvar_key :: "'e Analyzer \<Rightarrow> 'e \<Rightarrow> int \<times> int" where
  "colvar_key A c = (get_rte_idx A c, get_column_id A c)"

definition tles_for :: "'e Analyzer \<Rightarrow> int \<Rightarrow> 'e list \<Rightarrow> 'e TargetEntry list" where
  "tles_for A i cs =
     map (\<lambda>colvar. TargetEntry [] (deep_copy A colvar)) (filter (\<lambda>colvar. get_rte_idx A colvar = i) cs)"

definition referenced_colvars :: "'e Analyzer \<Rightarrow> 'e Query \<Rightarrow> 'e list" where
  "referenced_colvars A q =
     concat (map (collect_column_var A)
       (map get_expr (get_targetlist q) @
        fst (snd (where_groups A q)) @
        (case get_group_by q of None \<Rightarrow> [] | Some group_by \<Rightarrow> group_by) @
        (case get_having_predicate q of None \<Rightarrow> [] | Some having_pred \<Rightarrow> [having_pred])))"

text \<open>The range-table entries that lines 132 to 141 turn into base scans.\<close>

definition scanned_rangetable :: "'e Query \<Rightarrow> RangeTblEntry list" where
  "scanned_rangetable q =
     (if get_stmt_type q = kINSERT then tl (get_rangetable q) else get_rangetable q)"

subsection \<open>What the aggregation stage is expected to build\<close>

text \<open>
  The target list of the plan below the aggregation node (empty when there is none), the
  query's target list and group-by list rewritten against it, the single-group conjuncts of
  the HAVING predicate, its join and constant conjuncts, and the single-group conjuncts
  rewritten against the rewritten target list.
\<close>

definition child_targetlist :: "'e Plan option \<Rightarrow> 'e TargetEntry list" where
  "child_targetlist cp = (case cp of None \<Rightarrow> [] | Some pl \<Rightarrow> get_plan_targetlist pl)"

definition agg_targetlist :: "'e Analyzer \<Rightarrow> 'e Query \<Rightarrow> 'e Plan option \<Rightarrow> 'e TargetEntry list" where
  "agg_targetlist A q cp =
     map (\<lambda>tle. TargetEntry (get_resname tle)
                  (rewrite_with_child_targetlist A (get_expr tle) (child_targetlist cp)))
         (get_targetlist q)"

definition agg_groupby_list :: "'e Analyzer \<Rightarrow> 'e Query \<Rightarrow> 'e Plan option \<Rightarrow> 'e list" where
  "agg_groupby_list A q cp =
     map (\<lambda>e. rewrite_with_child_targetlist A e (child_targetlist cp))
         (case get_group_by q of None \<Rightarrow> [] | Some group_by \<Rightarrow> group_by)"

definition having_conjuncts :: "'e Analyzer \<Rightarrow> 'e Query \<Rightarrow> 'e list" where
  "having_conjuncts A q =
     (case get_having_predicate q of None \<Rightarrow> [] | Some having_pred \<Rightarrow> fst (group_predicates A having_pred))"

definition having_others :: "'e Analyzer \<Rightarrow> 'e Query \<Rightarrow> 'e list" where
  "having_others A q =
     (case get_having_predicate q of
        None \<Rightarrow> []
      | Some having_pred \<Rightarrow>
          fst (snd (group_predicates A having_pred)) @ snd (snd (group_predicates A having_pred)))"

definition agg_quals :: "'e Analyzer \<Rightarrow> 'e Query \<Rightarrow> 'e Plan option \<Rightarrow> 'e list" where
  "agg_quals A q cp =
     map (\<lambda>p. rewrite_having_clause A p (agg_targetlist A q cp)) (having_conjuncts A q)"

text \<open>The optimizer after join assembly of \<open>q_group\<close>.\<close>

definition st_scan :: "Expr Optimizer" where
  "st_scan = st_group\<lparr>cur_plan := Some (base_scans st_group ! 0)\<rparr>"

section \<open>Properties\<close>

subsection \<open>Element access and the plan node updates\<close>

lemma update_at_Inr:
  "update_at xs i f = Inr ys \<longleftrightarrow> 0 \<le> i \<and> i < int (length xs) \<and> ys = xs[nat i := f (xs ! nat i)]"
  by (auto simp: update_at_def)

lemma update_at_Inl:
  "update_at xs i f = Inl e \<longleftrightarrow> \<not> (0 \<le> i \<and> i < int (length xs)) \<and> e = IndexOutOfRange"
  by (auto simp: update_at_def)

lemma build_base_scans_eq:
  "build_base_scans ty first rt scans =
     scans @ map new_Scan (if first \<and> ty = kINSERT then tl rt else rt)"
  by (induction rt arbitrary: first scans) auto

lemma map_filter_Cons_append:
  "List.map_filter f (x # xs) = List.map_filter f [x] @ List.map_filter f xs"
  by (simp add: List.map_filter_def)

lemma add_simple_predicate_fields:
  "is_Scan s \<Longrightarrow>
     is_Scan (add_simple_predicate p s) \<and>
     get_simple_quals (add_simple_predicate p s) = get_simple_quals s @ [p] \<and>
     get_quals (add_simple_predicate p s) = get_quals s \<and>
     get_plan_targetlist (add_simple_predicate p s) = get_plan_targetlist s \<and>
     get_scan_table_id (add_simple_predicate p s) = get_scan_table_id s \<and>
     get_col_list (add_simple_predicate p s) = get_col_list s"
  by (cases s) simp_all

lemma add_predicate_fields:
  "is_Scan s \<Longrightarrow>
     is_Scan (add_predicate p s) \<and>
     get_simple_quals (add_predicate p s) = get_simple_quals s \<and>
     get_quals (add_predicate p s) = get_quals s @ [p] \<and>
     get_plan_targetlist (add_predicate p s) = get_plan_targetlist s \<and>
     get_scan_table_id (add_predicate p s) = get_scan_table_id s \<and>
     get_col_list (add_predicate p s) = get_col_list s"
  by (cases s) simp_all

lemma add_tle_fields:
  "is_Scan s \<Longrightarrow>
     is_Scan (add_tle t s) \<and>
     get_simple_quals (add_tle t s) = get_simple_quals s \<and>
     get_quals (add_tle t s) = get_quals s \<and>
     get_plan_targetlist (add_tle t s) = get_plan_targetlist s @ [t] \<and>
     get_scan_table_id (add_tle t s) = get_scan_table_id s \<and>
     get_col_list (add_tle t s) = get_col_list s"
  by (cases s) simp_all

subsection \<open>The loop over the scan predicates\<close>

lemma attach_scan_predicate_step:
  assumes "attach_scan_predicate A p scans = Inr scans'"
    and "\<forall>s \<in> set scans. is_Scan s"
  shows "length scans' = length scans"
    and "\<forall>s \<in> set scans'. is_Scan s"
    and "\<forall>i < length scans.
           get_simple_quals (scans' ! i) = get_simple_quals (scans ! i) @ simple_quals_for A (int i) [p] \<and>
           get_quals (scans' ! i) = get_quals (scans ! i) @ quals_for A (int i) [p] \<and>
           get_plan_targetlist (scans' ! i) = get_plan_targetlist (scans ! i) \<and>
           get_scan_table_id (scans' ! i) = get_scan_table_id (scans ! i) \<and>
           get_col_list (scans' ! i) = get_col_list (scans ! i)"
proof -
  show "length scans' = length scans"
    using assms(1)
    by (auto simp: attach_scan_predicate_def update_at_Inr split: option.splits prod.splits)
  show "\<forall>s \<in> set scans'. is_Scan s"
    using assms
    by (auto simp: attach_scan_predicate_def update_at_Inr set_conv_nth nth_list_update
        add_simple_predicate_fields add_predicate_fields split: option.splits prod.splits)
  show "\<forall>i < length scans.
           get_simple_quals (scans' ! i) = get_simple_quals (scans ! i) @ simple_quals_for A (int i) [p] \<and>
           get_quals (scans' ! i) = get_quals (scans ! i) @ quals_for A (int i) [p] \<and>
           get_plan_targetlist (scans' ! i) = get_plan_targetlist (scans ! i) \<and>
           get_scan_table_id (scans' ! i) = get_scan_table_id (scans ! i) \<and>
           get_col_list (scans' ! i) = get_col_list (scans ! i)"
  proof (intro allI impI)
    fix i assume i: "i < length scans"
    then have sc: "is_Scan (scans ! i)" using assms(2) by simp
    show "get_simple_quals (scans' ! i) = get_simple_quals (scans ! i) @ simple_quals_for A (int i) [p] \<and>
           get_quals (scans' ! i) = get_quals (scans ! i) @ quals_for A (int i) [p] \<and>
           get_plan_targetlist (scans' ! i) = get_plan_targetlist (scans ! i) \<and>
           get_scan_table_id (scans' ! i) = get_scan_table_id (scans ! i) \<and>
           get_col_list (scans' ! i) = get_col_list (scans ! i)"
    proof (cases "normalize_simple_predicate A p")
      case None
      then obtain j where j: "first_of_set (collect_rte_idx A p) = Some j"
        and u: "update_at scans j (add_predicate (deep_copy A p)) = Inr scans'"
        using assms(1) by (auto simp: attach_scan_predicate_def split: option.splits)
      from u have r: "0 \<le> j" "j < int (length scans)"
        and eq: "scans' = scans[nat j := add_predicate (deep_copy A p) (scans ! nat j)]"
        by (auto simp: update_at_Inr)
      show ?thesis
      proof (cases "j = int i")
        case True
        then show ?thesis
          using None j eq i sc
          by (simp add: simple_quals_for_def quals_for_def List.map_filter_simps
              add_predicate_fields)
      next
        case False
        then have "nat j \<noteq> i" using r by auto
        then show ?thesis
          using None j eq i False
          by (simp add: simple_quals_for_def quals_for_def List.map_filter_simps)
      qed
    next
      case (Some a)
      then obtain sp j where a: "a = (sp, j)" by (cases a)
      with Some have u: "update_at scans j (add_simple_predicate sp) = Inr scans'"
        using assms(1) by (auto simp: attach_scan_predicate_def)
      from u have r: "0 \<le> j" "j < int (length scans)"
        and eq: "scans' = scans[nat j := add_simple_predicate sp (scans ! nat j)]"
        by (auto simp: update_at_Inr)
      show ?thesis
      proof (cases "j = int i")
        case True
        then show ?thesis
          using Some a eq i sc
          by (simp add: simple_quals_for_def quals_for_def List.map_filter_simps
              add_simple_predicate_fields)
      next
        case False
        then have "nat j \<noteq> i" using r by auto
        then show ?thesis
          using Some a eq i False
          by (simp add: simple_quals_for_def quals_for_def List.map_filter_simps)
      qed
    qed
  qed
qed

lemma attach_scan_predicates_fields:
  "attach_scan_predicates A ps scans = Inr scans' \<Longrightarrow> \<forall>s \<in> set scans. is_Scan s \<Longrightarrow>
     length scans' = length scans \<and> (\<forall>s \<in> set scans'. is_Scan s) \<and>
     (\<forall>i < length scans.
        get_simple_quals (scans' ! i) = get_simple_quals (scans ! i) @ simple_quals_for A (int i) ps \<and>
        get_quals (scans' ! i) = get_quals (scans ! i) @ quals_for A (int i) ps \<and>
        get_plan_targetlist (scans' ! i) = get_plan_targetlist (scans ! i) \<and>
        get_scan_table_id (scans' ! i) = get_scan_table_id (scans ! i) \<and>
        get_col_list (scans' ! i) = get_col_list (scans ! i))"
proof (induction ps arbitrary: scans)
  case Nil
  then show ?case by (simp add: simple_quals_for_def quals_for_def List.map_filter_simps)
next
  case (Cons p ps)
  from Cons.prems(1) obtain mid where
    m: "attach_scan_predicate A p scans = Inr mid" and
    r: "attach_scan_predicates A ps mid = Inr scans'"
    by (auto split: sum.splits)
  note st = attach_scan_predicate_step [OF m Cons.prems(2)]
  note ih = Cons.IH [OF r st(2)]
  have sq: "simple_quals_for A i (p # ps) = simple_quals_for A i [p] @ simple_quals_for A i ps" for i
    unfolding simple_quals_for_def by (rule map_filter_Cons_append)
  have qq: "quals_for A i (p # ps) = quals_for A i [p] @ quals_for A i ps" for i
    unfolding quals_for_def by (rule map_filter_Cons_append)
  show ?case
    using st(1) st(3) ih by (simp add: sq qq)
qed

lemma set_map_filter: "set (List.map_filter f xs) = {y. \<exists>x \<in> set xs. f x = Some y}"
  by (induction xs) (auto simp: List.map_filter_simps split: option.splits)

lemma attach_scan_predicates_range:
  "attach_scan_predicates A ps scans = Inr scans' \<Longrightarrow>
     \<forall>p \<in> set ps.
       (\<forall>sp j. normalize_simple_predicate A p = Some (sp, j) \<longrightarrow> 0 \<le> j \<and> j < int (length scans)) \<and>
       (normalize_simple_predicate A p = None \<longrightarrow>
          (\<exists>j. first_of_set (collect_rte_idx A p) = Some j \<and> 0 \<le> j \<and> j < int (length scans)))"
proof (induction ps arbitrary: scans)
  case Nil
  then show ?case by simp
next
  case (Cons p ps)
  from Cons.prems obtain mid where
    m: "attach_scan_predicate A p scans = Inr mid" and
    r: "attach_scan_predicates A ps mid = Inr scans'"
    by (auto split: sum.splits)
  have len: "length mid = length scans"
    using m by (auto simp: attach_scan_predicate_def update_at_Inr split: option.splits prod.splits)
  have hd: "(\<forall>sp j. normalize_simple_predicate A p = Some (sp, j) \<longrightarrow> 0 \<le> j \<and> j < int (length scans)) \<and>
       (normalize_simple_predicate A p = None \<longrightarrow>
          (\<exists>j. first_of_set (collect_rte_idx A p) = Some j \<and> 0 \<le> j \<and> j < int (length scans)))"
    using m by (auto simp: attach_scan_predicate_def update_at_Inr split: option.splits prod.splits)
  show ?case
    using Cons.IH [OF r] hd by (simp add: len)
qed

subsection \<open>The set of column references\<close>

lemma colvar_comp_key:
  "colvar_comp A l r \<longleftrightarrow>
     fst (colvar_key A l) < fst (colvar_key A r) \<or>
     (fst (colvar_key A l) = fst (colvar_key A r) \<and> snd (colvar_key A l) < snd (colvar_key A r))"
  by (simp add: colvar_comp_def colvar_key_def)

lemma colvar_comp_trans: "colvar_comp A x y \<Longrightarrow> colvar_comp A y z \<Longrightarrow> colvar_comp A x z"
  by (auto simp: colvar_comp_def)

lemma colvar_comp_neither: "\<not> colvar_comp A x y \<Longrightarrow> \<not> colvar_comp A y x \<Longrightarrow> colvar_key A x = colvar_key A y"
  by (auto simp: colvar_comp_def colvar_key_def)

lemma colvar_comp_neq: "colvar_comp A x y \<Longrightarrow> colvar_key A x \<noteq> colvar_key A y"
  by (auto simp: colvar_comp_def colvar_key_def)

lemma set_insert_subset: "set (set_insert lt x cs) \<subseteq> insert x (set cs)"
proof (induction cs)
  case Nil
  show ?case by simp
next
  case (Cons y ys)
  show ?case
  proof (cases "lt x y")
    case True
    then show ?thesis by simp
  next
    case nlt: False
    show ?thesis
    proof (cases "lt y x")
      case True
      have "set (set_insert lt x (y # ys)) = insert y (set (set_insert lt x ys))"
        using nlt True by simp
      moreover have "set (y # ys) = insert y (set ys)" by simp
      ultimately show ?thesis using Cons.IH by blast
    next
      case False
      with nlt show ?thesis by (simp add: subset_iff)
    qed
  qed
qed

lemma set_insert_keys:
  "colvar_key A ` set (set_insert (colvar_comp A) x cs) = insert (colvar_key A x) (colvar_key A ` set cs)"
proof (induction cs)
  case Nil
  then show ?case by simp
next
  case (Cons y ys)
  show ?case
  proof (cases "colvar_comp A x y")
    case True
    then show ?thesis by simp
  next
    case nlt: False
    show ?thesis
    proof (cases "colvar_comp A y x")
      case True
      with nlt Cons.IH show ?thesis by auto
    next
      case False
      with nlt have "colvar_key A x = colvar_key A y" by (rule colvar_comp_neither)
      with nlt False show ?thesis by auto
    qed
  qed
qed

lemma set_insert_sorted:
  "sorted_wrt (colvar_comp A) cs \<Longrightarrow> sorted_wrt (colvar_comp A) (set_insert (colvar_comp A) x cs)"
proof (induction cs)
  case Nil
  then show ?case by simp
next
  case (Cons y ys)
  from Cons.prems have ys: "sorted_wrt (colvar_comp A) ys" and y: "\<forall>z \<in> set ys. colvar_comp A y z"
    by simp_all
  show ?case
  proof (cases "colvar_comp A x y")
    case True
    have "\<forall>z \<in> set ys. colvar_comp A x z"
    proof
      fix z assume "z \<in> set ys"
      then have "colvar_comp A y z" using y by simp
      with True show "colvar_comp A x z" by (rule colvar_comp_trans)
    qed
    with True Cons.prems show ?thesis by simp
  next
    case nlt: False
    show ?thesis
    proof (cases "colvar_comp A y x")
      case True
      have "\<forall>z \<in> set (set_insert (colvar_comp A) x ys). colvar_comp A y z"
      proof
        fix z assume "z \<in> set (set_insert (colvar_comp A) x ys)"
        then have "z = x \<or> z \<in> set ys"
          using set_insert_subset [of "colvar_comp A" x ys] by blast
        then show "colvar_comp A y z" using y True by blast
      qed
      with nlt True Cons.IH [OF ys] show ?thesis by simp
    next
      case False
      with nlt Cons.prems show ?thesis by simp
    qed
  qed
qed

lemma sorted_colvars_distinct:
  "sorted_wrt (colvar_comp A) cs \<Longrightarrow> distinct (map (colvar_key A) cs)"
  by (induction cs) (auto dest: colvar_comp_neq)

lemma fold_set_insert:
  "sorted_wrt (colvar_comp A) cs \<Longrightarrow>
     sorted_wrt (colvar_comp A) (fold (set_insert (colvar_comp A)) xs cs) \<and>
     colvar_key A ` set (fold (set_insert (colvar_comp A)) xs cs) =
       colvar_key A ` set xs \<union> colvar_key A ` set cs"
proof (induction xs arbitrary: cs)
  case Nil
  then show ?case by simp
next
  case (Cons x xs)
  have s: "sorted_wrt (colvar_comp A) (set_insert (colvar_comp A) x cs)"
    using Cons.prems by (rule set_insert_sorted)
  show ?case
    using Cons.IH [OF s] by (auto simp: set_insert_keys)
qed

lemma collect_all_sorted_keys:
  "sorted_wrt (colvar_comp A) cs \<Longrightarrow>
     sorted_wrt (colvar_comp A) (collect_all A es cs) \<and>
     colvar_key A ` set (collect_all A es cs) =
       colvar_key A ` set (concat (map (collect_column_var A) es)) \<union> colvar_key A ` set cs"
proof (induction es arbitrary: cs)
  case Nil
  then show ?case by (simp add: collect_all_def)
next
  case (Cons e es)
  let ?cs' = "fold (set_insert (colvar_comp A)) (collect_column_var A e) cs"
  note f = fold_set_insert [OF Cons.prems, of "collect_column_var A e"]
  have c: "collect_all A (e # es) cs = collect_all A es ?cs'"
    by (simp add: collect_all_def)
  from f have s: "sorted_wrt (colvar_comp A) ?cs'" by simp
  show ?case
    unfolding c using Cons.IH [OF s] f by (auto simp: image_Un)
qed

lemma query_colvar_set_sorted_keys:
  "sorted_wrt (colvar_comp A) (query_colvar_set A q (fst (snd (where_groups A q)))) \<and>
   colvar_key A ` set (query_colvar_set A q (fst (snd (where_groups A q)))) =
     colvar_key A ` set (referenced_colvars A q)"
proof -
  define j where "j = fst (snd (where_groups A q))"
  define t where "t = map get_expr (get_targetlist q)"
  define g where "g = (case get_group_by q of None \<Rightarrow> [] | Some group_by \<Rightarrow> group_by)"
  define h where "h = (case get_having_predicate q of None \<Rightarrow> [] | Some having_pred \<Rightarrow> [having_pred])"
  define cs1 where "cs1 = collect_all A t []"
  define cs2 where "cs2 = collect_all A j cs1"
  define cs3 where "cs3 = collect_all A g cs2"
  define cs4 where "cs4 = collect_all A h cs3"
  define K where "K = (\<lambda>es. colvar_key A ` set (concat (map (collect_column_var A) es)))"
  have nil: "collect_all A [] cs = cs" for cs
    by (simp add: collect_all_def)
  have e: "query_colvar_set A q j = cs4"
    unfolding query_colvar_set_def cs4_def cs3_def cs2_def cs1_def t_def g_def h_def
    by (simp add: Let_def nil split: option.splits)
  have 1: "sorted_wrt (colvar_comp A) cs1" "colvar_key A ` set cs1 = K t"
    using collect_all_sorted_keys [of A "[]" t] by (simp_all add: cs1_def K_def)
  have 2: "sorted_wrt (colvar_comp A) cs2" "colvar_key A ` set cs2 = K j \<union> K t"
    using collect_all_sorted_keys [OF 1(1), of j] 1(2) by (simp_all add: cs2_def K_def)
  have 3: "sorted_wrt (colvar_comp A) cs3" "colvar_key A ` set cs3 = K g \<union> (K j \<union> K t)"
    using collect_all_sorted_keys [OF 2(1), of g] 2(2) by (simp_all add: cs3_def K_def)
  have 4: "sorted_wrt (colvar_comp A) cs4" "colvar_key A ` set cs4 = K h \<union> (K g \<union> (K j \<union> K t))"
    using collect_all_sorted_keys [OF 3(1), of h] 3(2) by (simp_all add: cs4_def K_def)
  have r: "colvar_key A ` set (referenced_colvars A q) = K t \<union> K j \<union> K g \<union> K h"
    unfolding referenced_colvars_def K_def t_def j_def g_def h_def
    by (simp add: image_Un Un_assoc)
  have "K h \<union> (K g \<union> (K j \<union> K t)) = K t \<union> K j \<union> K g \<union> K h"
    by blast
  with 4 r e show ?thesis
    unfolding j_def by simp
qed

lemma distinct_key_filter_one:
  "distinct (map f xs) \<Longrightarrow> x \<in> set xs \<Longrightarrow> length (filter (\<lambda>y. f y = f x) xs) = 1"
proof (induction xs)
  case Nil
  then show ?case by simp
next
  case (Cons a xs)
  show ?case
  proof (cases "f a = f x")
    case True
    then have "f x \<notin> f ` set xs" using Cons.prems(1) by simp
    then have "\<forall>y \<in> set xs. f y \<noteq> f x" by (metis imageI)
    then have "filter (\<lambda>y. f y = f x) xs = []" by (simp add: filter_empty_conv)
    with True show ?thesis by simp
  next
    case False
    then have "x \<in> set xs" using Cons.prems(2) by auto
    with Cons False show ?thesis by simp
  qed
qed

subsection \<open>The loop over the column references, and the scans stage as a whole\<close>

lemma attach_colvars_fields:
  "attach_colvars A cs scans = Inr scans' \<Longrightarrow> \<forall>s \<in> set scans. is_Scan s \<Longrightarrow>
     length scans' = length scans \<and> (\<forall>s \<in> set scans'. is_Scan s) \<and>
     (\<forall>c \<in> set cs. 0 \<le> get_rte_idx A c \<and> get_rte_idx A c < int (length scans)) \<and>
     (\<forall>i < length scans.
        get_plan_targetlist (scans' ! i) = get_plan_targetlist (scans ! i) @ tles_for A (int i) cs \<and>
        get_simple_quals (scans' ! i) = get_simple_quals (scans ! i) \<and>
        get_quals (scans' ! i) = get_quals (scans ! i) \<and>
        get_scan_table_id (scans' ! i) = get_scan_table_id (scans ! i) \<and>
        get_col_list (scans' ! i) = get_col_list (scans ! i))"
proof (induction cs arbitrary: scans)
  case Nil
  then show ?case by (simp add: tles_for_def)
next
  case (Cons c cs)
  let ?f = "add_tle (TargetEntry [] (deep_copy A c))"
  from Cons.prems(1) obtain mid where
    m: "update_at scans (get_rte_idx A c) ?f = Inr mid" and
    r: "attach_colvars A cs mid = Inr scans'"
    by (auto split: sum.splits)
  from m have rng: "0 \<le> get_rte_idx A c" "get_rte_idx A c < int (length scans)"
    and mid: "mid = scans[nat (get_rte_idx A c) := ?f (scans ! nat (get_rte_idx A c))]"
    by (auto simp: update_at_Inr)
  have len: "length mid = length scans" using mid by simp
  have "is_Scan (scans ! nat (get_rte_idx A c))"
    using Cons.prems(2) rng by simp
  then have "is_Scan (?f (scans ! nat (get_rte_idx A c)))"
    by (simp add: add_tle_fields)
  then have sc: "\<forall>s \<in> set mid. is_Scan s"
    using Cons.prems(2) set_update_subset_insert [of scans "nat (get_rte_idx A c)"] mid
    by blast
  note ih = Cons.IH [OF r sc]
  have step: "get_plan_targetlist (mid ! i) = get_plan_targetlist (scans ! i) @ tles_for A (int i) [c] \<and>
        get_simple_quals (mid ! i) = get_simple_quals (scans ! i) \<and>
        get_quals (mid ! i) = get_quals (scans ! i) \<and>
        get_scan_table_id (mid ! i) = get_scan_table_id (scans ! i) \<and>
        get_col_list (mid ! i) = get_col_list (scans ! i)" if i: "i < length scans" for i
  proof (cases "get_rte_idx A c = int i")
    case True
    moreover have "is_Scan (scans ! i)" using Cons.prems(2) i by simp
    ultimately show ?thesis using mid i by (simp add: tles_for_def add_tle_fields)
  next
    case False
    then have "nat (get_rte_idx A c) \<noteq> i" using rng by auto
    with False show ?thesis using mid i by (simp add: tles_for_def)
  qed
  have ap: "tles_for A i (c # cs) = tles_for A i [c] @ tles_for A i cs" for i
    by (simp add: tles_for_def)
  show ?case
    using ih len rng step by (simp add: ap)
qed

lemma new_Scan_fields:
  "is_Scan (new_Scan rte) \<and> get_plan_targetlist (new_Scan rte) = [] \<and>
   get_quals (new_Scan rte) = [] \<and> get_simple_quals (new_Scan rte) = [] \<and>
   get_scan_table_id (new_Scan rte) = get_table_id rte \<and>
   get_col_list (new_Scan rte) = map columnId (get_column_descs rte)"
  by (simp add: new_Scan_def)

lemma optimize_scans_fields:
  assumes "optimize_scans A q new_Optimizer = Inr st'"
  shows "length (base_scans st') = length (scanned_rangetable q)"
    and "join_predicates st' = fst (snd (where_groups A q))"
    and "\<forall>c \<in> set (query_colvar_set A q (fst (snd (where_groups A q)))).
           0 \<le> get_rte_idx A c \<and> get_rte_idx A c < int (length (scanned_rangetable q))"
    and "\<forall>i < length (scanned_rangetable q).
           get_plan_targetlist (base_scans st' ! i) =
             tles_for A (int i) (query_colvar_set A q (fst (snd (where_groups A q)))) \<and>
           get_simple_quals (base_scans st' ! i) = simple_quals_for A (int i) (fst (where_groups A q)) \<and>
           get_quals (base_scans st' ! i) = quals_for A (int i) (fst (where_groups A q)) \<and>
           get_scan_table_id (base_scans st' ! i) = get_table_id (scanned_rangetable q ! i) \<and>
           get_col_list (base_scans st' ! i) =
             map columnId (get_column_descs (scanned_rangetable q ! i))"
proof -
  let ?s0 = "map new_Scan (scanned_rangetable q) :: 'a Plan list"
  obtain sp js cs where g: "where_groups A q = (sp, js, cs)" by (cases "where_groups A q")
  have b: "build_base_scans (get_stmt_type q) True (get_rangetable q) [] = ?s0"
    by (simp add: build_base_scans_eq scanned_rangetable_def)
  have nb: "base_scans (new_Optimizer :: 'a Optimizer) = []"
    "join_predicates (new_Optimizer :: 'a Optimizer) = []"
    "const_predicates (new_Optimizer :: 'a Optimizer) = []"
    by (simp_all add: new_Optimizer_def)
  have os: "optimize_scans A q new_Optimizer =
     (case attach_scan_predicates A sp ?s0 of
        Inl e \<Rightarrow> Inl e
      | Inr scans1 \<Rightarrow>
          (case attach_colvars A (query_colvar_set A q js) scans1 of
             Inl e \<Rightarrow> Inl e
           | Inr scans2 \<Rightarrow>
               Inr (new_Optimizer\<lparr>base_scans := scans2, join_predicates := js,
                      const_predicates := cs\<rparr>)))"
    unfolding optimize_scans_def by (simp add: g b nb)
  obtain s1 where 1: "attach_scan_predicates A sp ?s0 = Inr s1"
    using assms by (cases "attach_scan_predicates A sp ?s0") (simp_all add: os)
  obtain s2 where 2: "attach_colvars A (query_colvar_set A q js) s1 = Inr s2"
    using assms
    by (cases "attach_colvars A (query_colvar_set A q js) s1") (simp_all add: os 1)
  have 3: "st' = new_Optimizer\<lparr>base_scans := s2, join_predicates := js, const_predicates := cs\<rparr>"
    using assms by (simp add: os 1 2)
  have sc0: "\<forall>s \<in> set ?s0. is_Scan s" by (auto simp: new_Scan_fields)
  note f1 = attach_scan_predicates_fields [OF 1 sc0]
  then have sc1: "\<forall>s \<in> set s1. is_Scan s" by blast
  note f2 = attach_colvars_fields [OF 2 sc1]
  show "length (base_scans st') = length (scanned_rangetable q)"
    using 3 f1 f2 by simp
  show "join_predicates st' = fst (snd (where_groups A q))"
    using 3 g by simp
  show "\<forall>c \<in> set (query_colvar_set A q (fst (snd (where_groups A q)))).
           0 \<le> get_rte_idx A c \<and> get_rte_idx A c < int (length (scanned_rangetable q))"
    using f1 f2 g by simp
  show "\<forall>i < length (scanned_rangetable q).
           get_plan_targetlist (base_scans st' ! i) =
             tles_for A (int i) (query_colvar_set A q (fst (snd (where_groups A q)))) \<and>
           get_simple_quals (base_scans st' ! i) = simple_quals_for A (int i) (fst (where_groups A q)) \<and>
           get_quals (base_scans st' ! i) = quals_for A (int i) (fst (where_groups A q)) \<and>
           get_scan_table_id (base_scans st' ! i) = get_table_id (scanned_rangetable q ! i) \<and>
           get_col_list (base_scans st' ! i) =
             map columnId (get_column_descs (scanned_rangetable q ! i))"
    using 3 f1 f2 g by (simp add: new_Scan_fields)
qed

subsection \<open>Evaluating the sample collaborator\<close>

lemmas sample_eval =
  optimize_scans_def where_groups_def query_colvar_set_def collect_all_def colvar_comp_def
  sample_analyzer_def sample_group_predicates_def tables_of_def update_at_def new_Scan_def
  rte_t_def rte_s_def rte_u_def new_Optimizer_def attach_scan_predicate_def

lemmas pipeline_eval =
  optimize_def optimize_query_def optimize_current_query_def optimize_joins_def
  optimize_aggs_def optimize_orderby_def process_targetlist_def final_tlist_def
  cur_plan_is_first_scan_def
  map_with_cur_targetlist_def having_quals_def new_ValuesScan_def

subsection \<open>Scan predicates\<close>

lemma first_of_set_least:
  "first_of_set xs = Some j \<Longrightarrow> j \<in> set xs \<and> (\<forall>x \<in> set xs. j \<le> x)"
proof (cases xs)
  case Nil
  then show ?thesis if "first_of_set xs = Some j" using that by simp
next
  case (Cons x ys)
  have "fold min zs z \<in> set (z # zs) \<and> (\<forall>y \<in> set (z # zs). fold min zs z \<le> y)" for zs and z :: int
  proof (induction zs arbitrary: z)
    case Nil
    show ?case by simp
  next
    case (Cons a zs)
    from Cons.IH [of "min a z"] show ?case by (auto simp: min_def split: if_splits)
  qed
  from this [of ys x] show ?thesis if "first_of_set xs = Some j" using that Cons by simp
qed

text \<open>
  Whenever the scans stage completes, every scan predicate of the WHERE clause that
  normalizes into a simple predicate is in the \<open>simple_quals\<close> of the base scan at the index
  that normalization names, and every scan predicate that does not normalize is, as a deep
  copy, in the \<open>quals\<close> of the base scan at the least of its referenced range-table
  indices.  The two lists of a base scan hold exactly these predicates, in the order of the
  scan predicates.  The base scan at index \<open>i\<close> is the one built from entry \<open>i\<close> of
  \<open>scanned_rangetable\<close> (lemma \<open>optimize_scans_fields\<close>), which is entry \<open>i\<close> of the range
  table for a statement other than INSERT.
\<close>

theorem scan_predicates_attached:
  assumes "optimize_scans A q new_Optimizer = Inr st'"
  shows "(\<forall>i < length (base_scans st').
            get_simple_quals (base_scans st' ! i) = simple_quals_for A (int i) (fst (where_groups A q)) \<and>
            get_quals (base_scans st' ! i) = quals_for A (int i) (fst (where_groups A q))) \<and>
         (\<forall>p \<in> set (fst (where_groups A q)).
            (\<forall>sp j. normalize_simple_predicate A p = Some (sp, j) \<longrightarrow>
               0 \<le> j \<and> nat j < length (base_scans st') \<and>
               sp \<in> set (get_simple_quals (base_scans st' ! nat j))) \<and>
            (normalize_simple_predicate A p = None \<longrightarrow>
               (\<exists>j. first_of_set (collect_rte_idx A p) = Some j \<and>
                    0 \<le> j \<and> nat j < length (base_scans st') \<and>
                    deep_copy A p \<in> set (get_quals (base_scans st' ! nat j))))) \<and>
         (\<forall>i < length (base_scans st'). \<forall>e \<in> set (get_quals (base_scans st' ! i)).
            \<exists>p \<in> set (fst (where_groups A q)).
              normalize_simple_predicate A p = None \<and> e = deep_copy A p)"
proof -
  let ?sp = "fst (where_groups A q)"
  let ?s0 = "map new_Scan (scanned_rangetable q) :: 'a Plan list"
  note f = optimize_scans_fields [OF assms]
  have eqs: "\<forall>i < length (base_scans st').
            get_simple_quals (base_scans st' ! i) = simple_quals_for A (int i) ?sp \<and>
            get_quals (base_scans st' ! i) = quals_for A (int i) ?sp"
    using f(1) f(4) by simp
  obtain sp js cs where g: "where_groups A q = (sp, js, cs)" by (cases "where_groups A q")
  have b: "build_base_scans (get_stmt_type q) True (get_rangetable q) [] = ?s0"
    by (simp add: build_base_scans_eq scanned_rangetable_def)
  have "\<exists>s1. attach_scan_predicates A sp ?s0 = Inr s1"
    using assms unfolding optimize_scans_def
    by (cases "attach_scan_predicates A sp ?s0") (simp_all add: g b new_Optimizer_def)
  then obtain s1 where 1: "attach_scan_predicates A sp ?s0 = Inr s1" by blast
  note rng = attach_scan_predicates_range [OF 1]
  have len: "length (base_scans st') = length ?s0" using f(1) by simp
  have part2: "(\<forall>sp' j. normalize_simple_predicate A p = Some (sp', j) \<longrightarrow>
               0 \<le> j \<and> nat j < length (base_scans st') \<and>
               sp' \<in> set (get_simple_quals (base_scans st' ! nat j))) \<and>
            (normalize_simple_predicate A p = None \<longrightarrow>
               (\<exists>j. first_of_set (collect_rte_idx A p) = Some j \<and>
                    0 \<le> j \<and> nat j < length (base_scans st') \<and>
                    deep_copy A p \<in> set (get_quals (base_scans st' ! nat j))))"
    if p: "p \<in> set ?sp" for p
  proof (intro conjI allI impI)
    fix sp' j assume n: "normalize_simple_predicate A p = Some (sp', j)"
    with rng p g have r: "0 \<le> j" "j < int (length ?s0)" by auto
    then show "0 \<le> j" by simp
    from r show lt: "nat j < length (base_scans st')" using len by simp
    have "sp' \<in> set (simple_quals_for A j ?sp)"
      unfolding simple_quals_for_def set_map_filter using p n by force
    then show "sp' \<in> set (get_simple_quals (base_scans st' ! nat j))"
      using eqs lt r by simp
  next
    assume n: "normalize_simple_predicate A p = None"
    with rng p g obtain j where j: "first_of_set (collect_rte_idx A p) = Some j"
      and r: "0 \<le> j" "j < int (length ?s0)" by auto
    have lt: "nat j < length (base_scans st')" using r len by simp
    have "deep_copy A p \<in> set (quals_for A j ?sp)"
      unfolding quals_for_def set_map_filter using p n j by force
    then have "deep_copy A p \<in> set (get_quals (base_scans st' ! nat j))"
      using eqs lt r by simp
    with j r lt show "\<exists>j. first_of_set (collect_rte_idx A p) = Some j \<and>
                    0 \<le> j \<and> nat j < length (base_scans st') \<and>
                    deep_copy A p \<in> set (get_quals (base_scans st' ! nat j))"
      by blast
  qed
  have part3: "\<exists>p \<in> set ?sp. normalize_simple_predicate A p = None \<and> e = deep_copy A p"
    if i: "i < length (base_scans st')" and e: "e \<in> set (get_quals (base_scans st' ! i))" for i e
  proof -
    from e eqs i have "e \<in> set (quals_for A (int i) ?sp)" by simp
    then obtain p where "p \<in> set ?sp" and
      fp: "(case normalize_simple_predicate A p of
              Some x \<Rightarrow> None
            | None \<Rightarrow>
                if first_of_set (collect_rte_idx A p) = Some (int i) then Some (deep_copy A p)
                else None) = Some e"
      unfolding quals_for_def set_map_filter by blast
    moreover from fp have "normalize_simple_predicate A p = None \<and> e = deep_copy A p"
      by (cases "normalize_simple_predicate A p") (simp_all split: if_splits)
    ultimately show ?thesis by blast
  qed
  from eqs part2 part3 show ?thesis by blast
qed

theorem scan_predicates_attached_witness:
  "optimize_scans sample_analyzer q_where new_Optimizer = Inr st_where \<and>
   get_simple_quals (base_scans st_where ! 0) = [BinOper ''>'' (ColumnVar 0 1) (Constant 5)] \<and>
   get_quals (base_scans st_where ! 0) = [BinOper ''='' (ColumnVar 0 1) (ColumnVar 0 2)]"
proof -
  have h: "optimize_scans sample_analyzer q_where new_Optimizer = Inr st_where"
    by (simp add: sample_eval q_where_def st_where_def)
  have "get_simple_quals (base_scans st_where ! 0) =
          simple_quals_for sample_analyzer 0 (fst (where_groups sample_analyzer q_where)) \<and>
        get_quals (base_scans st_where ! 0) =
          quals_for sample_analyzer 0 (fst (where_groups sample_analyzer q_where))"
    using scan_predicates_attached [OF h] by (simp add: st_where_def)
  moreover have "simple_quals_for sample_analyzer 0 (fst (where_groups sample_analyzer q_where)) =
      [BinOper ''>'' (ColumnVar 0 1) (Constant 5)]"
    by (simp add: simple_quals_for_def List.map_filter_simps sample_eval q_where_def)
  moreover have "quals_for sample_analyzer 0 (fst (where_groups sample_analyzer q_where)) =
      [BinOper ''='' (ColumnVar 0 1) (ColumnVar 0 2)]"
    by (simp add: quals_for_def List.map_filter_simps sample_eval q_where_def)
  ultimately show ?thesis using h by simp
qed

text \<open>
  C1.  For an INSERT the loop of lines 134 to 141 leaves the destination entry out, so the scan
  of range-table entry \<open>i\<close> is at position \<open>i - 1\<close> of the base scans, while lines 150 and 158
  look the scan up at position \<open>i\<close>.  In \<open>q_insert_where\<close> the scan predicate \<open>s.c > 5\<close>
  normalizes with index 1, the only base scan is the one of \<open>s\<close> at position 0, and the
  lookup at position 1 is out of range: the predicate is not attached to the scan of \<open>s\<close>.
  In \<open>q_insert_where_cross\<close> the scans stage completes, and both the simple predicate and
  the deep copy of the predicate that does not normalize are in the scan of table 30, not in
  the scan of table 20 that they refer to.
\<close>

theorem insert_scan_predicate_misplaced:
  "get_stmt_type q_insert_where = kINSERT \<and>
   fst (where_groups sample_analyzer q_insert_where) = [BinOper ''>'' (ColumnVar 1 1) (Constant 5)] \<and>
   normalize_simple_predicate sample_analyzer (BinOper ''>'' (ColumnVar 1 1) (Constant 5)) =
     Some (BinOper ''>'' (ColumnVar 1 1) (Constant 5), 1) \<and>
   get_table_id (get_rangetable q_insert_where ! 1) = 20 \<and>
   build_base_scans kINSERT True (get_rangetable q_insert_where) ([] :: Expr Plan list) =
     [Scan [] [] 0 None [] 20 [1]] \<and>
   optimize_scans sample_analyzer q_insert_where new_Optimizer = Inl IndexOutOfRange \<and>
   optimize sample_analyzer q_insert_where = Inl IndexOutOfRange \<and>
   fst (where_groups sample_analyzer q_insert_where_cross) =
     [BinOper ''>'' (ColumnVar 1 1) (Constant 5), BinOper ''='' (ColumnVar 1 1) (ColumnVar 1 1)] \<and>
   normalize_simple_predicate sample_analyzer (BinOper ''='' (ColumnVar 1 1) (ColumnVar 1 1)) = None \<and>
   first_of_set (collect_rte_idx sample_analyzer (BinOper ''='' (ColumnVar 1 1) (ColumnVar 1 1))) =
     Some 1 \<and>
   get_table_id (get_rangetable q_insert_where_cross ! 1) = 20 \<and>
   optimize_scans sample_analyzer q_insert_where_cross new_Optimizer =
     Inr \<lparr>base_scans =
            [Scan [] [] 0 None [] 20 [1],
             Scan [TargetEntry [] (ColumnVar 1 1)]
               [BinOper ''='' (ColumnVar 1 1) (ColumnVar 1 1)] 0 None
               [BinOper ''>'' (ColumnVar 1 1) (Constant 5)] 30 [1]],
          join_predicates = [], const_predicates = [], cur_plan = None\<rparr>"
  by (simp add: sample_eval pipeline_eval q_insert_where_def q_insert_where_cross_def)

subsection \<open>Column references\<close>

text \<open>
  Whenever the scans stage completes, the target list of the base scan at index \<open>i\<close> is one
  anonymous target entry, wrapping a copy, for each member with table index \<open>i\<close> of the set
  of column references, and that set has exactly one member with the
  (table index, column id) pair of every column reference found in the target list, the
  join predicates, the group-by list and the HAVING predicate.  A pair referenced more than
  once therefore has exactly one target entry, in the base scan at its table index.  The
  base scan at index \<open>i\<close> is the one built from entry \<open>i\<close> of \<open>scanned_rangetable\<close>
  (lemma \<open>optimize_scans_fields\<close>), which is entry \<open>i\<close> of the range table for a statement
  other than INSERT.
\<close>

theorem column_references_deduplicated:
  assumes "optimize_scans A q new_Optimizer = Inr st'"
  shows "(\<forall>i < length (base_scans st').
            get_plan_targetlist (base_scans st' ! i) =
              tles_for A (int i) (query_colvar_set A q (join_predicates st'))) \<and>
         (\<forall>c \<in> set (referenced_colvars A q).
            0 \<le> get_rte_idx A c \<and> nat (get_rte_idx A c) < length (base_scans st') \<and>
            length (filter (\<lambda>c'. colvar_key A c' = colvar_key A c)
                      (filter (\<lambda>c'. get_rte_idx A c' = get_rte_idx A c)
                         (query_colvar_set A q (join_predicates st')))) = 1)"
proof -
  let ?cs = "query_colvar_set A q (join_predicates st')"
  note f = optimize_scans_fields [OF assms]
  note k = query_colvar_set_sorted_keys [of A q]
  have cs: "?cs = query_colvar_set A q (fst (snd (where_groups A q)))"
    using f(2) by simp
  have tl: "\<forall>i < length (base_scans st').
            get_plan_targetlist (base_scans st' ! i) = tles_for A (int i) ?cs"
    using f(1) f(4) cs by simp
  have d: "distinct (map (colvar_key A) ?cs)"
    using k cs sorted_colvars_distinct by metis
  have one: "0 \<le> get_rte_idx A c \<and> nat (get_rte_idx A c) < length (base_scans st') \<and>
            length (filter (\<lambda>c'. colvar_key A c' = colvar_key A c)
                      (filter (\<lambda>c'. get_rte_idx A c' = get_rte_idx A c) ?cs)) = 1"
    if c: "c \<in> set (referenced_colvars A q)" for c
  proof -
    from c have "colvar_key A c \<in> colvar_key A ` set ?cs"
      using k cs by (metis imageI)
    then obtain c0 where c0: "c0 \<in> set ?cs" and key: "colvar_key A c0 = colvar_key A c"
      by auto
    from key have idx: "get_rte_idx A c0 = get_rte_idx A c"
      by (simp add: colvar_key_def)
    have "0 \<le> get_rte_idx A c0 \<and> get_rte_idx A c0 < int (length (scanned_rangetable q))"
      using f(3) c0 cs by simp
    then have rng: "0 \<le> get_rte_idx A c" "nat (get_rte_idx A c) < length (base_scans st')"
      using idx f(1) by auto
    have imp: "colvar_key A c' = colvar_key A c \<Longrightarrow> get_rte_idx A c' = get_rte_idx A c" for c'
      by (simp add: colvar_key_def)
    have "filter (\<lambda>c'. colvar_key A c' = colvar_key A c)
            (filter (\<lambda>c'. get_rte_idx A c' = get_rte_idx A c) ?cs) =
          filter (\<lambda>c'. colvar_key A c' = colvar_key A c0) ?cs"
      unfolding filter_filter key using imp by (metis (mono_tags, lifting))
    moreover have "length (filter (\<lambda>c'. colvar_key A c' = colvar_key A c0) ?cs) = 1"
      using d c0 by (rule distinct_key_filter_one)
    ultimately show ?thesis using rng by simp
  qed
  from tl one show ?thesis by blast
qed

theorem column_references_deduplicated_witness:
  "optimize_scans sample_analyzer q_group new_Optimizer = Inr st_group \<and>
   referenced_colvars sample_analyzer q_group = [ColumnVar 0 2, ColumnVar 0 2] \<and>
   get_plan_targetlist (base_scans st_group ! 0) = [TargetEntry [] (ColumnVar 0 2)]"
proof -
  have h: "optimize_scans sample_analyzer q_group new_Optimizer = Inr st_group"
    by (simp add: sample_eval q_group_def st_group_def)
  have "get_plan_targetlist (base_scans st_group ! 0) =
          tles_for sample_analyzer 0 (query_colvar_set sample_analyzer q_group (join_predicates st_group))"
    using column_references_deduplicated [OF h] by (simp add: st_group_def)
  moreover have "tles_for sample_analyzer 0
        (query_colvar_set sample_analyzer q_group (join_predicates st_group)) =
      [TargetEntry [] (ColumnVar 0 2)]"
    by (simp add: tles_for_def sample_eval q_group_def st_group_def)
  moreover have "referenced_colvars sample_analyzer q_group = [ColumnVar 0 2, ColumnVar 0 2]"
    by (simp add: referenced_colvars_def sample_eval q_group_def)
  ultimately show ?thesis using h by simp
qed

text \<open>
  C8.  For an INSERT the scan of range-table entry \<open>i\<close> is at position \<open>i - 1\<close> of the base
  scans, while line 177 looks the scan up at position \<open>i\<close>.  In \<open>q_insert_group\<close> the column
  \<open>s.c\<close>, with table index 1, is referenced in the target list and in the group-by list;
  the set holds it once, the only base scan is the one of \<open>s\<close> at position 0, and the
  lookup at position 1 is out of range: no target entry is added to the scan of \<open>s\<close>.  In
  \<open>q_insert_group_cross\<close> the scans stage completes, and the one target entry is in the
  scan of table 30, not in the scan of table 20 that owns the column.
\<close>

theorem insert_column_entry_misplaced:
  "get_stmt_type q_insert_group = kINSERT \<and>
   referenced_colvars sample_analyzer q_insert_group = [ColumnVar 1 1, ColumnVar 1 1] \<and>
   query_colvar_set sample_analyzer q_insert_group [] = [ColumnVar 1 1] \<and>
   get_rte_idx sample_analyzer (ColumnVar 1 1) = 1 \<and>
   get_table_id (get_rangetable q_insert_group ! 1) = 20 \<and>
   build_base_scans kINSERT True (get_rangetable q_insert_group) ([] :: Expr Plan list) =
     [Scan [] [] 0 None [] 20 [1]] \<and>
   optimize_scans sample_analyzer q_insert_group new_Optimizer = Inl IndexOutOfRange \<and>
   optimize sample_analyzer q_insert_group = Inl IndexOutOfRange \<and>
   referenced_colvars sample_analyzer q_insert_group_cross = [ColumnVar 1 1, ColumnVar 1 1] \<and>
   get_table_id (get_rangetable q_insert_group_cross ! 1) = 20 \<and>
   optimize_scans sample_analyzer q_insert_group_cross new_Optimizer =
     Inr \<lparr>base_scans =
            [Scan [] [] 0 None [] 20 [1],
             Scan [TargetEntry [] (ColumnVar 1 1)] [] 0 None [] 30 [1]],
          join_predicates = [], const_predicates = [], cur_plan = None\<rparr>"
  by (simp add: sample_eval pipeline_eval referenced_colvars_def
      q_insert_group_def q_insert_group_cross_def)

subsection \<open>INSERT statements\<close>

text \<open>
  C7.  For an INSERT statement, a root plan that is produced carries the table id of the
  first range-table entry and the column ids of its column descriptors in order, and the
  base scans are built from the range-table entries after the first, one scan per entry in
  order, with the table id and the column ids of that entry.
\<close>

theorem insert_destination_and_scans:
  assumes "get_stmt_type q = kINSERT"
  shows "(\<forall>rp. optimize A q = Inr rp \<longrightarrow>
            get_rangetable q \<noteq> [] \<and>
            get_root_stmt_type rp = kINSERT \<and>
            get_result_table_id rp = get_table_id (hd (get_rangetable q)) \<and>
            get_result_col_list rp = map columnId (get_column_descs (hd (get_rangetable q)))) \<and>
         build_base_scans (get_stmt_type q) True (get_rangetable q) ([] :: 'e Plan list) =
            map new_Scan (tl (get_rangetable q)) \<and>
         (\<forall>st'. optimize_scans A q (new_Optimizer :: 'e Optimizer) = Inr st' \<longrightarrow>
            map get_scan_table_id (base_scans st') = map get_table_id (tl (get_rangetable q)) \<and>
            map get_col_list (base_scans st') =
              map (\<lambda>rte. map columnId (get_column_descs rte)) (tl (get_rangetable q)))"
proof (intro conjI allI impI)
  fix rp assume rp: "optimize A q = Inr rp"
  show ne: "get_rangetable q \<noteq> []"
    using rp assms by (auto simp: optimize_def)
  then obtain rte rest where rt: "get_rangetable q = rte # rest"
    by (cases "get_rangetable q") auto
  from rp obtain pl where
    "rp = \<lparr>get_plan = pl, get_root_stmt_type = kINSERT, get_result_table_id = get_table_id rte,
           get_result_col_list = map columnId (get_column_descs rte)\<rparr>"
    using assms rt by (auto simp: optimize_def split: sum.splits)
  then show "get_root_stmt_type rp = kINSERT"
    and "get_result_table_id rp = get_table_id (hd (get_rangetable q))"
    and "get_result_col_list rp = map columnId (get_column_descs (hd (get_rangetable q)))"
    using rt by simp_all
next
  show "build_base_scans (get_stmt_type q) True (get_rangetable q) ([] :: 'e Plan list) =
            map new_Scan (tl (get_rangetable q))"
    using assms by (simp add: build_base_scans_eq)
next
  fix st' :: "'e Optimizer" assume h: "optimize_scans A q new_Optimizer = Inr st'"
  note f = optimize_scans_fields [OF h]
  have sr: "scanned_rangetable q = tl (get_rangetable q)"
    using assms by (simp add: scanned_rangetable_def)
  show "map get_scan_table_id (base_scans st') = map get_table_id (tl (get_rangetable q))"
    using f(1) f(4) unfolding sr by (simp add: list_eq_iff_nth_eq)
  show "map get_col_list (base_scans st') =
          map (\<lambda>rte. map columnId (get_column_descs rte)) (tl (get_rangetable q))"
    using f(1) f(4) unfolding sr by (simp add: list_eq_iff_nth_eq)
qed

theorem insert_destination_and_scans_witness:
  "get_stmt_type q_insert = kINSERT \<and>
   optimize sample_analyzer q_insert =
     Inr \<lparr>get_plan = Some (ValuesScan [TargetEntry [] (Constant 1), TargetEntry [] (Constant 2)]
                            [] 0 None),
          get_root_stmt_type = kINSERT, get_result_table_id = 10,
          get_result_col_list = [1, 2]\<rparr> \<and>
   get_table_id (hd (get_rangetable q_insert)) = 10 \<and>
   map columnId (get_column_descs (hd (get_rangetable q_insert))) = [1, 2] \<and>
   build_base_scans (get_stmt_type q_insert) True (get_rangetable q_insert) ([] :: Expr Plan list) = []"
proof -
  have h: "get_stmt_type q_insert = kINSERT" by (simp add: q_insert_def)
  have e: "optimize sample_analyzer q_insert =
     Inr \<lparr>get_plan = Some (ValuesScan [TargetEntry [] (Constant 1), TargetEntry [] (Constant 2)]
                            [] 0 None),
          get_root_stmt_type = kINSERT, get_result_table_id = 10,
          get_result_col_list = [1, 2]\<rparr>"
    by (simp add: sample_eval pipeline_eval q_insert_def)
  have "build_base_scans (get_stmt_type q_insert) True (get_rangetable q_insert) ([] :: Expr Plan list) =
          map new_Scan (tl (get_rangetable q_insert))"
    using insert_destination_and_scans [OF h, of sample_analyzer] by blast
  then have "build_base_scans (get_stmt_type q_insert) True (get_rangetable q_insert) ([] :: Expr Plan list) = []"
    by (simp add: q_insert_def)
  moreover have "get_table_id (hd (get_rangetable q_insert)) = 10"
    "map columnId (get_column_descs (hd (get_rangetable q_insert))) = [1, 2]"
    by (simp_all add: q_insert_def rte_t_def)
  ultimately show ?thesis using h e by simp
qed

subsection \<open>Join assembly\<close>

text \<open>
  C2.  Join assembly follows the single-scan-only policy: with no base scan the current plan
  is null, with exactly one base scan that scan becomes the current plan unchanged, and with
  two or more base scans the stage throws the runtime error for unsupported joins.  Nothing
  else of the optimizer changes.
\<close>

theorem optimize_joins_single_scan_policy:
  "(base_scans st = [] \<longrightarrow> optimize_joins st = Inr (st\<lparr>cur_plan := None\<rparr>)) \<and>
   (\<forall>s. base_scans st = [s] \<longrightarrow> optimize_joins st = Inr (st\<lparr>cur_plan := Some s\<rparr>)) \<and>
   (2 \<le> length (base_scans st) \<longrightarrow>
      optimize_joins st = Inl (RuntimeError ''joins are not supported yet.''))"
  by (simp add: optimize_joins_def)

theorem optimize_joins_single_scan_policy_witness:
  "optimize_joins (new_Optimizer :: Expr Optimizer) = Inr (new_Optimizer\<lparr>cur_plan := None\<rparr>) \<and>
   optimize_joins ((new_Optimizer :: Expr Optimizer)\<lparr>base_scans := [new_Scan rte_t]\<rparr>) =
     Inr (new_Optimizer\<lparr>base_scans := [new_Scan rte_t], cur_plan := Some (new_Scan rte_t)\<rparr>) \<and>
   optimize_joins
       ((new_Optimizer :: Expr Optimizer)\<lparr>base_scans := [new_Scan rte_t, new_Scan rte_s]\<rparr>) =
     Inl (RuntimeError ''joins are not supported yet.'')"
  using optimize_joins_single_scan_policy [of "new_Optimizer :: Expr Optimizer"]
    optimize_joins_single_scan_policy
      [of "(new_Optimizer :: Expr Optimizer)\<lparr>base_scans := [new_Scan rte_t]\<rparr>"]
    optimize_joins_single_scan_policy
      [of "(new_Optimizer :: Expr Optimizer)\<lparr>base_scans := [new_Scan rte_t, new_Scan rte_s]\<rparr>"]
  by (simp add: new_Optimizer_def)

subsection \<open>Aggregation\<close>

lemma map_with_cur_targetlist_Some:
  "map_with_cur_targetlist (Some pl) f xs = Inr (map (\<lambda>x. f x (get_plan_targetlist pl)) xs)"
  by (simp add: map_with_cur_targetlist_def)

lemma map_with_cur_targetlist_Inr:
  "map_with_cur_targetlist cp f xs = Inr ys \<Longrightarrow> ys = map (\<lambda>x. f x (child_targetlist cp)) xs"
  by (cases cp) (auto simp: map_with_cur_targetlist_def child_targetlist_def split: if_splits)

lemma having_quals_cases:
  "having_quals A q agg_tlist =
     (if having_others A q \<noteq> [] then Inl AssertionFailed
      else Inr (map (\<lambda>p. rewrite_having_clause A p agg_tlist) (having_conjuncts A q)))"
  by (cases "get_having_predicate q")
     (auto simp: having_quals_def having_others_def having_conjuncts_def Let_def split: prod.splits)

lemma AggPlan_child_neq: "AggPlan tlist hq c (Some pl) g \<noteq> pl"
proof
  assume "AggPlan tlist hq c (Some pl) g = pl"
  then have "size (AggPlan tlist hq c (Some pl) g) = size pl" by simp
  then show False by simp
qed

lemma optimize_aggs_result:
  assumes "\<not> (get_num_aggs q = 0 \<and> get_having_predicate q = None)"
    and "optimize_aggs A q st = Inr st'"
  shows "st' = st\<lparr>cur_plan := Some (AggPlan (agg_targetlist A q (cur_plan st))
                    (agg_quals A q (cur_plan st)) 0 (cur_plan st)
                    (agg_groupby_list A q (cur_plan st)))\<rparr>"
proof -
  let ?f = "\<lambda>tle ctl. TargetEntry (get_resname tle) (rewrite_with_child_targetlist A (get_expr tle) ctl)"
  let ?g = "\<lambda>e ctl. rewrite_with_child_targetlist A e ctl"
  let ?gb = "case get_group_by q of None \<Rightarrow> [] | Some group_by \<Rightarrow> group_by"
  have oa: "optimize_aggs A q st =
     (case map_with_cur_targetlist (cur_plan st) ?f (get_targetlist q) of
        Inl e \<Rightarrow> Inl e
      | Inr agg_tlist \<Rightarrow>
          (case map_with_cur_targetlist (cur_plan st) ?g ?gb of
             Inl e \<Rightarrow> Inl e
           | Inr groupby_list \<Rightarrow>
               (case having_quals A q agg_tlist of
                  Inl e \<Rightarrow> Inl e
                | Inr hquals \<Rightarrow>
                    Inr (st\<lparr>cur_plan :=
                              Some (AggPlan agg_tlist hquals 0 (cur_plan st) groupby_list)\<rparr>))))"
    unfolding optimize_aggs_def by (rule if_not_P) (rule assms(1))
  note r = assms(2) [unfolded oa]
  obtain agg_tlist where 1: "map_with_cur_targetlist (cur_plan st) ?f (get_targetlist q) = Inr agg_tlist"
    using r by (cases "map_with_cur_targetlist (cur_plan st) ?f (get_targetlist q)") simp_all
  obtain gl where 2: "map_with_cur_targetlist (cur_plan st) ?g ?gb = Inr gl"
    using r 1 by (cases "map_with_cur_targetlist (cur_plan st) ?g ?gb") simp_all
  obtain hq where 3: "having_quals A q agg_tlist = Inr hq"
    using r 1 2 by (cases "having_quals A q agg_tlist") simp_all
  have st': "st' = st\<lparr>cur_plan := Some (AggPlan agg_tlist hq 0 (cur_plan st) gl)\<rparr>"
    using r 1 2 3 by simp
  have a: "agg_tlist = agg_targetlist A q (cur_plan st)"
    using map_with_cur_targetlist_Inr [OF 1] by (simp add: agg_targetlist_def)
  have b: "gl = agg_groupby_list A q (cur_plan st)"
    using map_with_cur_targetlist_Inr [OF 2] by (simp add: agg_groupby_list_def)
  have c: "hq = agg_quals A q (cur_plan st)"
    using 3 a by (simp add: having_quals_cases agg_quals_def split: if_splits)
  show ?thesis using st' a b c by simp
qed

text \<open>
  C3.  The aggregation stage returns the optimizer as it was if and only if the query declares
  no aggregate function and no HAVING predicate.  Otherwise, whenever it completes, the new
  current plan is an aggregation node whose child is the previous current plan, whose target
  list is the query's target list rewritten against the child's target list, whose quals
  are the HAVING conjuncts rewritten against that new target list, and whose group-by list
  is the rewritten group-by list; and it completes whenever the previous current plan is
  not null and the HAVING predicate has no join or constant conjunct.
\<close>

theorem optimize_aggs_noop_or_AggPlan:
  "(optimize_aggs A q st = Inr st \<longleftrightarrow> get_num_aggs q = 0 \<and> get_having_predicate q = None) \<and>
   (\<forall>st'. \<not> (get_num_aggs q = 0 \<and> get_having_predicate q = None) \<longrightarrow>
      optimize_aggs A q st = Inr st' \<longrightarrow>
      st' = st\<lparr>cur_plan := Some (AggPlan (agg_targetlist A q (cur_plan st))
                    (agg_quals A q (cur_plan st)) 0 (cur_plan st)
                    (agg_groupby_list A q (cur_plan st)))\<rparr>) \<and>
   (\<forall>child. cur_plan st = Some child \<longrightarrow> having_others A q = [] \<longrightarrow>
      (\<exists>st'. optimize_aggs A q st = Inr st'))"
proof (intro conjI allI impI)
  show "optimize_aggs A q st = Inr st \<longleftrightarrow> get_num_aggs q = 0 \<and> get_having_predicate q = None"
  proof
    assume r: "optimize_aggs A q st = Inr st"
    show "get_num_aggs q = 0 \<and> get_having_predicate q = None"
    proof (rule ccontr)
      assume n: "\<not> (get_num_aggs q = 0 \<and> get_having_predicate q = None)"
      from optimize_aggs_result [OF n r]
      have cp: "cur_plan st = Some (AggPlan (agg_targetlist A q (cur_plan st))
                    (agg_quals A q (cur_plan st)) 0 (cur_plan st)
                    (agg_groupby_list A q (cur_plan st)))"
        by (metis Optimizer.select_convs(4) Optimizer.surjective Optimizer.update_convs(4))
      show False
      proof (cases "cur_plan st")
        case None
        then show ?thesis using cp by simp
      next
        case (Some a)
        with cp have "AggPlan (agg_targetlist A q (Some a)) (agg_quals A q (Some a)) 0 (Some a)
                (agg_groupby_list A q (Some a)) = a"
          by simp
        then show ?thesis by (simp add: AggPlan_child_neq)
      qed
    qed
  next
    assume "get_num_aggs q = 0 \<and> get_having_predicate q = None"
    then show "optimize_aggs A q st = Inr st" by (simp add: optimize_aggs_def)
  qed
next
  fix st' assume "\<not> (get_num_aggs q = 0 \<and> get_having_predicate q = None)"
    and "optimize_aggs A q st = Inr st'"
  then show "st' = st\<lparr>cur_plan := Some (AggPlan (agg_targetlist A q (cur_plan st))
                    (agg_quals A q (cur_plan st)) 0 (cur_plan st)
                    (agg_groupby_list A q (cur_plan st)))\<rparr>"
    by (rule optimize_aggs_result)
next
  fix child assume "cur_plan st = Some child" and "having_others A q = []"
  then show "\<exists>st'. optimize_aggs A q st = Inr st'"
    by (simp add: optimize_aggs_def map_with_cur_targetlist_Some having_quals_cases)
qed

theorem optimize_aggs_noop_or_AggPlan_witness:
  "optimize_aggs sample_analyzer q_where st_where = Inr st_where \<and>
   cur_plan st_scan = Some (Scan [TargetEntry [] (ColumnVar 0 2)] [] 0 None [] 10 [1, 2]) \<and>
   having_others sample_analyzer q_group = [] \<and>
   optimize_aggs sample_analyzer q_group st_scan =
     Inr (st_scan\<lparr>cur_plan :=
       Some (AggPlan
         [TargetEntry ''b'' (Var 1), TargetEntry ''n'' (AggExpr ''COUNT'' (Constant 1))] [] 0
         (Some (Scan [TargetEntry [] (ColumnVar 0 2)] [] 0 None [] 10 [1, 2]))
         [Var 1])\<rparr>)"
proof -
  note t = optimize_aggs_noop_or_AggPlan [of sample_analyzer q_where st_where]
    optimize_aggs_noop_or_AggPlan [of sample_analyzer q_group st_scan]
  have 1: "get_num_aggs q_where = 0 \<and> get_having_predicate q_where = None"
    by (simp add: q_where_def)
  have 2: "\<not> (get_num_aggs q_group = 0 \<and> get_having_predicate q_group = None)"
    by (simp add: q_group_def)
  have 3: "cur_plan st_scan = Some (Scan [TargetEntry [] (ColumnVar 0 2)] [] 0 None [] 10 [1, 2])"
    by (simp add: st_scan_def st_group_def)
  have 4: "having_others sample_analyzer q_group = []"
    by (simp add: having_others_def q_group_def)
  from t(2) 3 4 obtain st' where 5: "optimize_aggs sample_analyzer q_group st_scan = Inr st'"
    by blast
  with t(2) 2 have "st' = st_scan\<lparr>cur_plan := Some (AggPlan (agg_targetlist sample_analyzer q_group (cur_plan st_scan))
                    (agg_quals sample_analyzer q_group (cur_plan st_scan)) 0 (cur_plan st_scan)
                    (agg_groupby_list sample_analyzer q_group (cur_plan st_scan)))\<rparr>"
    by blast
  moreover have "agg_targetlist sample_analyzer q_group (cur_plan st_scan) =
      [TargetEntry ''b'' (Var 1), TargetEntry ''n'' (AggExpr ''COUNT'' (Constant 1))]"
    by (simp add: agg_targetlist_def child_targetlist_def 3 q_group_def sample_analyzer_def)
  moreover have "agg_groupby_list sample_analyzer q_group (cur_plan st_scan) = [Var 1]"
    by (simp add: agg_groupby_list_def child_targetlist_def 3 q_group_def sample_analyzer_def)
  moreover have "agg_quals sample_analyzer q_group (cur_plan st_scan) = []"
    by (simp add: agg_quals_def having_conjuncts_def q_group_def)
  ultimately have "optimize_aggs sample_analyzer q_group st_scan =
     Inr (st_scan\<lparr>cur_plan :=
       Some (AggPlan
         [TargetEntry ''b'' (Var 1), TargetEntry ''n'' (AggExpr ''COUNT'' (Constant 1))] [] 0
         (Some (Scan [TargetEntry [] (ColumnVar 0 2)] [] 0 None [] 10 [1, 2]))
         [Var 1])\<rparr>)"
    using 5 3 by simp
  moreover from t(1) 1 have "optimize_aggs sample_analyzer q_where st_where = Inr st_where"
    by blast
  ultimately show ?thesis using 3 4 by simp
qed

subsection \<open>Final projection\<close>

lemma set_targetlist_fields:
  "get_plan_targetlist (set_targetlist tlist' pl) = tlist' \<and>
   get_quals (set_targetlist tlist' pl) = get_quals pl \<and>
   get_cost (set_targetlist tlist' pl) = get_cost pl \<and>
   get_child_plan (set_targetlist tlist' pl) = get_child_plan pl \<and>
   set_targetlist (get_plan_targetlist pl) (set_targetlist tlist' pl) = pl"
  by (cases pl) simp_all

text \<open>
  After join assembly and the aggregation stage, the current plan is the node of the first
  base scan exactly when there is one base scan and the aggregation stage did nothing: the
  test by equality in \<open>process_targetlist\<close> finds the node that line 187 shares.
\<close>

lemma cur_plan_is_first_scan_pipeline:
  assumes "\<forall>s \<in> set (base_scans st1). is_Scan s"
    and "optimize_joins st1 = Inr st2"
    and "optimize_aggs A q st2 = Inr st3"
  shows "cur_plan_is_first_scan st3 \<longleftrightarrow>
           length (base_scans st1) = 1 \<and> get_num_aggs q = 0 \<and> get_having_predicate q = None"
proof (cases "get_num_aggs q = 0 \<and> get_having_predicate q = None")
  case True
  then have "st3 = st2" using assms(3) by (simp add: optimize_aggs_def)
  then show ?thesis
    using assms(2) True
    by (auto simp: optimize_joins_def cur_plan_is_first_scan_def split: if_splits)
next
  case False
  from optimize_aggs_result [OF False assms(3)]
  obtain agg where cp: "cur_plan st3 = Some agg" and ag: "\<not> is_Scan agg"
    and bs: "base_scans st3 = base_scans st2"
    by simp
  have "base_scans st2 = base_scans st1"
    using assms(2) by (auto simp: optimize_joins_def split: if_splits)
  with bs assms(1) have "base_scans st3 \<noteq> [] \<Longrightarrow> is_Scan (base_scans st3 ! 0)"
    by simp
  with cp ag have "\<not> cur_plan_is_first_scan st3"
    by (auto simp: cur_plan_is_first_scan_def)
  with False show ?thesis by simp
qed

text \<open>
  C4.  With no current plan, the final projection deep-copies every target expression of the
  query, keeping its name, and makes a new values scan with the resulting target list the
  current plan.  With a current plan, it rewrites every target expression against the target
  list of that plan and replaces the target list of that plan, in place: the current plan
  keeps its quals, cost and child, and differs from the old one in its target list only;
  when the current plan is the node of the first base scan, the vector of base scans shows
  the new target list at that position, and otherwise the vector is as it was.
\<close>

theorem process_targetlist_projection:
  "(cur_plan st = None \<longrightarrow>
      cur_plan (process_targetlist A q st) =
        Some (ValuesScan
              (map (\<lambda>tle. TargetEntry (get_resname tle) (deep_copy A (get_expr tle)))
                   (get_targetlist q)) [] 0 None)) \<and>
   (\<forall>pl. cur_plan st = Some pl \<longrightarrow>
      (\<exists>pl'. cur_plan (process_targetlist A q st) = Some pl' \<and>
         get_plan_targetlist pl' =
           map (\<lambda>tle. TargetEntry (get_resname tle)
                        (rewrite_with_targetlist A (get_expr tle) (get_plan_targetlist pl)))
               (get_targetlist q) \<and>
         get_quals pl' = get_quals pl \<and> get_cost pl' = get_cost pl \<and>
         get_child_plan pl' = get_child_plan pl \<and>
         set_targetlist (get_plan_targetlist pl) pl' = pl \<and>
         base_scans (process_targetlist A q st) =
           (if cur_plan_is_first_scan st then (base_scans st)[0 := pl'] else base_scans st)))"
proof (intro conjI allI impI)
  assume "cur_plan st = None"
  then show "cur_plan (process_targetlist A q st) =
        Some (ValuesScan
              (map (\<lambda>tle. TargetEntry (get_resname tle) (deep_copy A (get_expr tle)))
                   (get_targetlist q)) [] 0 None)"
    by (simp add: process_targetlist_def final_tlist_def new_ValuesScan_def)
next
  fix pl assume pl: "cur_plan st = Some pl"
  let ?ftl = "map (\<lambda>tle. TargetEntry (get_resname tle)
                        (rewrite_with_targetlist A (get_expr tle) (get_plan_targetlist pl)))
               (get_targetlist q)"
  have "cur_plan (process_targetlist A q st) = Some (set_targetlist ?ftl pl)"
    using pl by (simp add: process_targetlist_def final_tlist_def Let_def)
  moreover have "base_scans (process_targetlist A q st) =
      (if cur_plan_is_first_scan st then (base_scans st)[0 := set_targetlist ?ftl pl]
       else base_scans st)"
    using pl by (simp add: process_targetlist_def final_tlist_def Let_def)
  ultimately show "\<exists>pl'. cur_plan (process_targetlist A q st) = Some pl' \<and>
         get_plan_targetlist pl' = ?ftl \<and>
         get_quals pl' = get_quals pl \<and> get_cost pl' = get_cost pl \<and>
         get_child_plan pl' = get_child_plan pl \<and>
         set_targetlist (get_plan_targetlist pl) pl' = pl \<and>
         base_scans (process_targetlist A q st) =
           (if cur_plan_is_first_scan st then (base_scans st)[0 := pl'] else base_scans st)"
    using set_targetlist_fields [of ?ftl pl] by blast
qed

theorem process_targetlist_projection_witness:
  "cur_plan (new_Optimizer :: Expr Optimizer) = None \<and>
   cur_plan (process_targetlist sample_analyzer q_const new_Optimizer) =
     Some (ValuesScan [TargetEntry ''two'' (BinOper ''+'' (Constant 1) (Constant 1))] [] 0 None) \<and>
   cur_plan st_scan = Some (Scan [TargetEntry [] (ColumnVar 0 2)] [] 0 None [] 10 [1, 2]) \<and>
   cur_plan (process_targetlist sample_analyzer q_group st_scan) =
     Some (Scan
        [TargetEntry ''b'' (Var 1), TargetEntry ''n'' (AggExpr ''COUNT'' (Constant 1))]
        [] 0 None [] 10 [1, 2]) \<and>
   cur_plan_is_first_scan st_scan \<and>
   base_scans (process_targetlist sample_analyzer q_group st_scan) =
     [Scan [TargetEntry ''b'' (Var 1), TargetEntry ''n'' (AggExpr ''COUNT'' (Constant 1))]
        [] 0 None [] 10 [1, 2]]"
proof -
  have n: "cur_plan (new_Optimizer :: Expr Optimizer) = None"
    by (simp add: new_Optimizer_def)
  have s: "cur_plan st_scan = Some (Scan [TargetEntry [] (ColumnVar 0 2)] [] 0 None [] 10 [1, 2])"
    by (simp add: st_scan_def st_group_def)
  from process_targetlist_projection [of new_Optimizer sample_analyzer q_const] n
  have 1: "cur_plan (process_targetlist sample_analyzer q_const new_Optimizer) =
     Some (ValuesScan [TargetEntry ''two'' (BinOper ''+'' (Constant 1) (Constant 1))] [] 0 None)"
    by (simp add: q_const_def sample_analyzer_def)
  from process_targetlist_projection [of st_scan sample_analyzer q_group] s
  obtain pl' where p: "cur_plan (process_targetlist sample_analyzer q_group st_scan) = Some pl'"
    and t: "get_plan_targetlist pl' =
           map (\<lambda>tle. TargetEntry (get_resname tle)
                        (rewrite_with_targetlist sample_analyzer (get_expr tle)
                           [TargetEntry [] (ColumnVar 0 2)]))
               (get_targetlist q_group)"
    and r: "set_targetlist [TargetEntry [] (ColumnVar 0 2)] pl' =
              Scan [TargetEntry [] (ColumnVar 0 2)] [] 0 None [] 10 [1, 2]"
    and b: "base_scans (process_targetlist sample_analyzer q_group st_scan) =
           (if cur_plan_is_first_scan st_scan then (base_scans st_scan)[0 := pl']
            else base_scans st_scan)"
    by auto
  have f: "cur_plan_is_first_scan st_scan"
    by (simp add: cur_plan_is_first_scan_def st_scan_def st_group_def)
  from r t have e: "pl' = Scan
        [TargetEntry ''b'' (Var 1), TargetEntry ''n'' (AggExpr ''COUNT'' (Constant 1))]
        [] 0 None [] 10 [1, 2]"
    by (cases pl') (simp_all add: q_group_def sample_analyzer_def)
  from b f e have "base_scans (process_targetlist sample_analyzer q_group st_scan) =
     [Scan [TargetEntry ''b'' (Var 1), TargetEntry ''n'' (AggExpr ''COUNT'' (Constant 1))]
        [] 0 None [] 10 [1, 2]]"
    by (simp add: st_scan_def st_group_def)
  with p n s 1 e f show ?thesis by simp
qed

subsection \<open>The HAVING contract\<close>

text \<open>
  The query \<open>q_having_join\<close> has a HAVING predicate whose only conjunct is join-classified,
  and planning ends in the runtime error of join assembly, not in a failed assertion.
\<close>

theorem having_contract_counterexample:
  "get_having_predicate q_having_join = Some (BinOper ''='' (ColumnVar 0 1) (ColumnVar 1 1)) \<and>
   fst (snd (group_predicates sample_analyzer (BinOper ''='' (ColumnVar 0 1) (ColumnVar 1 1)))) =
     [BinOper ''='' (ColumnVar 0 1) (ColumnVar 1 1)] \<and>
   optimize sample_analyzer q_having_join = Inl (RuntimeError ''joins are not supported yet.'')"
  by (simp add: sample_eval pipeline_eval q_having_join_def)

text \<open>
  C5, as amended.  For a SELECT or INSERT query without a UNION link for which the scans
  stage completes with exactly one base scan, a HAVING predicate that decomposes into at
  least one join-classified or constant-classified conjunct makes planning stop at the failed
  assertion, which is not a runtime error.
\<close>

theorem having_contract_violation:
  assumes "get_stmt_type q = kSELECT \<or> get_stmt_type q = kINSERT"
    and "get_next_query q = None"
    and "optimize_scans A q new_Optimizer = Inr st"
    and "length (base_scans st) = 1"
    and "having_others A q \<noteq> []"
  shows "optimize A q = Inl AssertionFailed \<and> (\<forall>msg. optimize A q \<noteq> Inl (RuntimeError msg))"
proof -
  obtain s where bs: "base_scans st = [s]"
    using assms(4) by (cases "base_scans st") auto
  have j: "optimize_joins st = Inr (st\<lparr>cur_plan := Some s\<rparr>)"
    using bs by (simp add: optimize_joins_def)
  have hv: "get_having_predicate q \<noteq> None"
    using assms(5) by (cases "get_having_predicate q") (simp_all add: having_others_def)
  have a: "optimize_aggs A q (st\<lparr>cur_plan := Some s\<rparr>) = Inl AssertionFailed"
    using hv assms(5)
    by (simp add: optimize_aggs_def map_with_cur_targetlist_Some having_quals_cases)
  have c: "optimize_current_query A q new_Optimizer = Inl AssertionFailed"
    by (simp add: optimize_current_query_def assms(3) j a)
  have oq: "optimize_query A q new_Optimizer = Inl AssertionFailed"
    by (simp add: optimize_query_def assms(2) c)
  have rt: "get_rangetable q \<noteq> []" if i: "get_stmt_type q = kINSERT"
  proof
    assume e: "get_rangetable q = []"
    have "length (base_scans st) = length (scanned_rangetable q)"
      using assms(3) by (rule optimize_scans_fields(1))
    then show False using assms(4) i e by (simp add: scanned_rangetable_def)
  qed
  have "optimize A q = Inl AssertionFailed"
  proof (cases "get_stmt_type q = kSELECT")
    case True
    then show ?thesis by (simp add: optimize_def oq)
  next
    case False
    with assms(1) have i: "get_stmt_type q = kINSERT" by simp
    with rt obtain rte rest where "get_rangetable q = rte # rest"
      by (cases "get_rangetable q") auto
    with i show ?thesis by (simp add: optimize_def oq)
  qed
  then show ?thesis by simp
qed

theorem having_contract_violation_witness:
  "get_stmt_type q_having_const = kSELECT \<and> get_next_query q_having_const = None \<and>
   optimize_scans sample_analyzer q_having_const new_Optimizer =
     Inr \<lparr>base_scans = [Scan [] [] 0 None [] 10 [1, 2]], join_predicates = [],
          const_predicates = [], cur_plan = None\<rparr> \<and>
   having_others sample_analyzer q_having_const = [BinOper ''='' (Constant 1) (Constant 1)] \<and>
   optimize sample_analyzer q_having_const = Inl AssertionFailed"
proof -
  have 1: "get_stmt_type q_having_const = kSELECT \<or> get_stmt_type q_having_const = kINSERT"
    and sel: "get_stmt_type q_having_const = kSELECT"
    and 2: "get_next_query q_having_const = None"
    by (simp_all add: q_having_const_def)
  have 3: "optimize_scans sample_analyzer q_having_const new_Optimizer =
     Inr \<lparr>base_scans = [Scan [] [] 0 None [] 10 [1, 2]], join_predicates = [],
          const_predicates = [], cur_plan = None\<rparr>"
    by (simp add: sample_eval q_having_const_def)
  have 4: "length (base_scans \<lparr>base_scans = [Scan [] [] 0 None [] 10 [1, 2] :: Expr Plan],
          join_predicates = [], const_predicates = [], cur_plan = None\<rparr>) = 1"
    by simp
  have 5: "having_others sample_analyzer q_having_const = [BinOper ''='' (Constant 1) (Constant 1)]"
    by (simp add: having_others_def q_having_const_def sample_eval)
  then have ne: "having_others sample_analyzer q_having_const \<noteq> []" by simp
  from having_contract_violation [OF 1 2 3 4 ne] sel 2 3 5 show ?thesis by simp
qed

subsection \<open>ORDER BY\<close>

text \<open>
  The query \<open>q_having_orderby\<close> specifies ORDER BY, and planning stops at the failed
  assertion of the aggregation stage, not at a runtime error.
\<close>

theorem order_by_counterexample:
  "get_order_by q_having_orderby = Some [OrderEntry (AggExpr ''COUNT'' (Constant 1)) False] \<and>
   optimize sample_analyzer q_having_orderby = Inl AssertionFailed"
  by (simp add: sample_eval pipeline_eval q_having_orderby_def)

lemma optimize_query_with_order_by:
  assumes "get_order_by q \<noteq> None"
  shows "optimize_query A q st =
     (if get_next_query q \<noteq> None then Inl (RuntimeError ''UNION queries are not supported yet.'')
      else case optimize_current_query A q st of
             Inl e \<Rightarrow> Inl e
           | Inr st' \<Rightarrow> Inl (RuntimeError ''order by not supported yet.''))"
  using assms
  by (cases "optimize_current_query A q st")
     (simp_all add: optimize_query_def optimize_orderby_def)

lemma optimize_reports_optimize_query:
  assumes "passes_statement_switch q" and "optimize_query A q new_Optimizer = Inl e"
  shows "optimize A q = Inl e"
proof (cases "get_stmt_type q = kSELECT")
  case True
  then show ?thesis using assms(2) by (simp add: optimize_def)
next
  case False
  with assms(1) have i: "get_stmt_type q = kINSERT" and "get_rangetable q \<noteq> []"
    by (simp_all add: passes_statement_switch_def)
  then obtain rte rest where "get_rangetable q = rte # rest"
    by (cases "get_rangetable q") auto
  with i show ?thesis using assms(2) by (simp add: optimize_def)
qed

lemma optimize_switch_fails:
  assumes "\<not> passes_statement_switch q"
  shows "optimize A q = (if get_stmt_type q = kINSERT then Inl IndexOutOfRange else Inl AssertionFailed)"
  using assms
  by (cases "get_stmt_type q") (simp_all add: passes_statement_switch_def optimize_def)

text \<open>
  C6, as amended.  A query that specifies ORDER BY never yields a plan, and planning fails
  with NotSupported unless a stage that runs before the order-by stub stops on a failure of
  another kind, which is then the failure reported.  In detail, for a statement that the
  switch on the statement kind lets through: with a UNION link the runtime error of the
  UNION check; without one, the runtime error of join assembly when the scans stage builds
  two or more base scans, the runtime error of the order-by stub when the four stages
  complete, and otherwise the failure of the stage that stopped.  For a statement that the
  switch stops, the failure is that of the switch.
\<close>

theorem order_by_not_supported:
  assumes "get_order_by q \<noteq> None"
  shows "(\<forall>rp. optimize A q \<noteq> Inr rp) \<and>
         (passes_statement_switch q \<longrightarrow>
          (get_next_query q = None \<longrightarrow>
             (\<forall>e. optimize_current_query A q new_Optimizer = Inl e \<longrightarrow> (\<exists>msg. e = RuntimeError msg))) \<longrightarrow>
          (\<exists>msg. optimize A q = Inl (RuntimeError msg))) \<and>
         (passes_statement_switch q \<longrightarrow> get_next_query q \<noteq> None \<longrightarrow>
          optimize A q = Inl (RuntimeError ''UNION queries are not supported yet.'')) \<and>
         (passes_statement_switch q \<longrightarrow> get_next_query q = None \<longrightarrow>
          (\<forall>st. optimize_scans A q new_Optimizer = Inr st \<longrightarrow> 2 \<le> length (base_scans st) \<longrightarrow>
             optimize A q = Inl (RuntimeError ''joins are not supported yet.''))) \<and>
         (passes_statement_switch q \<longrightarrow> get_next_query q = None \<longrightarrow>
          (\<forall>st'. optimize_current_query A q new_Optimizer = Inr st' \<longrightarrow>
             optimize A q = Inl (RuntimeError ''order by not supported yet.''))) \<and>
         (passes_statement_switch q \<longrightarrow> get_next_query q = None \<longrightarrow>
          (\<forall>e. optimize_current_query A q new_Optimizer = Inl e \<longrightarrow> optimize A q = Inl e)) \<and>
         (\<not> passes_statement_switch q \<longrightarrow>
          optimize A q = (if get_stmt_type q = kINSERT then Inl IndexOutOfRange
                          else Inl AssertionFailed))"
proof -
  note oq = optimize_query_with_order_by [OF assms, of A new_Optimizer]
  have never: "optimize A q \<noteq> Inr rp" for rp
  proof (cases "passes_statement_switch q")
    case True
    from oq obtain e where "optimize_query A q new_Optimizer = Inl e"
      by (cases "optimize_current_query A q new_Optimizer") (simp_all split: if_splits)
    with True have "optimize A q = Inl e" by (rule optimize_reports_optimize_query)
    then show ?thesis by simp
  next
    case False
    then show ?thesis by (simp add: optimize_switch_fails)
  qed
  have union: "optimize A q = Inl (RuntimeError ''UNION queries are not supported yet.'')"
    if "passes_statement_switch q" "get_next_query q \<noteq> None"
    using that oq by (simp add: optimize_reports_optimize_query)
  have completes: "optimize A q = Inl (RuntimeError ''order by not supported yet.'')"
    if "passes_statement_switch q" "get_next_query q = None"
      "optimize_current_query A q new_Optimizer = Inr st'" for st'
    using that oq by (simp add: optimize_reports_optimize_query)
  have earlier: "optimize A q = Inl e"
    if "passes_statement_switch q" "get_next_query q = None"
      "optimize_current_query A q new_Optimizer = Inl e" for e
    using that oq by (simp add: optimize_reports_optimize_query)
  have joins: "optimize A q = Inl (RuntimeError ''joins are not supported yet.'')"
    if p: "passes_statement_switch q" and n: "get_next_query q = None"
      and sc: "optimize_scans A q new_Optimizer = Inr st" and two: "2 \<le> length (base_scans st)" for st
  proof -
    have "optimize_joins st = Inl (RuntimeError ''joins are not supported yet.'')"
      using two by (auto simp: optimize_joins_def)
    then have "optimize_current_query A q new_Optimizer =
        Inl (RuntimeError ''joins are not supported yet.'')"
      by (simp add: optimize_current_query_def sc)
    with p n show ?thesis by (rule earlier)
  qed
  have unless: "\<exists>msg. optimize A q = Inl (RuntimeError msg)"
    if p: "passes_statement_switch q"
      and h: "get_next_query q = None \<longrightarrow>
             (\<forall>e. optimize_current_query A q new_Optimizer = Inl e \<longrightarrow> (\<exists>msg. e = RuntimeError msg))"
  proof (cases "get_next_query q = None")
    case False
    with p union show ?thesis by blast
  next
    case True
    show ?thesis
    proof (cases "optimize_current_query A q new_Optimizer")
      case (Inl e)
      with h True obtain msg where "e = RuntimeError msg" by blast
      with earlier [OF p True Inl] show ?thesis by blast
    next
      case (Inr st')
      with completes [OF p True] show ?thesis by blast
    qed
  qed
  from never unless union joins completes earlier optimize_switch_fails [of q A]
  show ?thesis by blast
qed

theorem order_by_not_supported_witness:
  "get_order_by q_orderby \<noteq> None \<and> passes_statement_switch q_orderby \<and>
   get_next_query q_orderby = None \<and>
   optimize_current_query sample_analyzer q_orderby new_Optimizer =
     Inr \<lparr>base_scans = [Scan [TargetEntry ''a'' (Var 1)] [] 0 None [] 10 [1, 2]],
          join_predicates = [], const_predicates = [],
          cur_plan = Some (Scan [TargetEntry ''a'' (Var 1)] [] 0 None [] 10 [1, 2])\<rparr> \<and>
   optimize sample_analyzer q_orderby = Inl (RuntimeError ''order by not supported yet.'') \<and>
   get_order_by q_union_orderby \<noteq> None \<and> passes_statement_switch q_union_orderby \<and>
   get_next_query q_union_orderby \<noteq> None \<and>
   optimize sample_analyzer q_union_orderby =
     Inl (RuntimeError ''UNION queries are not supported yet.'') \<and>
   get_order_by q_join_orderby \<noteq> None \<and> passes_statement_switch q_join_orderby \<and>
   get_next_query q_join_orderby = None \<and>
   optimize_scans sample_analyzer q_join_orderby new_Optimizer =
     Inr \<lparr>base_scans = [Scan [TargetEntry [] (ColumnVar 0 1)] [] 0 None [] 10 [1, 2],
                         Scan [] [] 0 None [] 20 [1]],
          join_predicates = [], const_predicates = [], cur_plan = None\<rparr> \<and>
   optimize sample_analyzer q_join_orderby = Inl (RuntimeError ''joins are not supported yet.'') \<and>
   get_order_by q_having_orderby \<noteq> None \<and> passes_statement_switch q_having_orderby \<and>
   get_next_query q_having_orderby = None \<and>
   optimize_current_query sample_analyzer q_having_orderby new_Optimizer = Inl AssertionFailed \<and>
   optimize sample_analyzer q_having_orderby = Inl AssertionFailed \<and>
   get_order_by q_update_orderby \<noteq> None \<and> \<not> passes_statement_switch q_update_orderby \<and>
   optimize sample_analyzer q_update_orderby = Inl AssertionFailed"
proof -
  have o: "get_order_by q_orderby \<noteq> None" "passes_statement_switch q_orderby"
    "get_next_query q_orderby = None"
    by (simp_all add: q_orderby_def passes_statement_switch_def)
  have oc: "optimize_current_query sample_analyzer q_orderby new_Optimizer =
     Inr \<lparr>base_scans = [Scan [TargetEntry ''a'' (Var 1)] [] 0 None [] 10 [1, 2]],
          join_predicates = [], const_predicates = [],
          cur_plan = Some (Scan [TargetEntry ''a'' (Var 1)] [] 0 None [] 10 [1, 2])\<rparr>"
    by (simp add: sample_eval pipeline_eval q_orderby_def Let_def)
  have u: "get_order_by q_union_orderby \<noteq> None" "passes_statement_switch q_union_orderby"
    "get_next_query q_union_orderby \<noteq> None"
    by (simp_all add: q_union_orderby_def passes_statement_switch_def)
  have j: "get_order_by q_join_orderby \<noteq> None" "passes_statement_switch q_join_orderby"
    "get_next_query q_join_orderby = None"
    by (simp_all add: q_join_orderby_def passes_statement_switch_def)
  have js: "optimize_scans sample_analyzer q_join_orderby new_Optimizer =
     Inr \<lparr>base_scans = [Scan [TargetEntry [] (ColumnVar 0 1)] [] 0 None [] 10 [1, 2],
                         Scan [] [] 0 None [] 20 [1]],
          join_predicates = [], const_predicates = [], cur_plan = None\<rparr>"
    by (simp add: sample_eval q_join_orderby_def)
  have h: "get_order_by q_having_orderby \<noteq> None" "passes_statement_switch q_having_orderby"
    "get_next_query q_having_orderby = None"
    by (simp_all add: q_having_orderby_def passes_statement_switch_def)
  have hc: "optimize_current_query sample_analyzer q_having_orderby new_Optimizer =
      Inl AssertionFailed"
    by (simp add: sample_eval pipeline_eval q_having_orderby_def)
  have d: "get_order_by q_update_orderby \<noteq> None" "\<not> passes_statement_switch q_update_orderby"
    "get_stmt_type q_update_orderby \<noteq> kINSERT"
    by (simp_all add: q_update_orderby_def passes_statement_switch_def)
  have 1: "optimize sample_analyzer q_orderby = Inl (RuntimeError ''order by not supported yet.'')"
    using order_by_not_supported [OF o(1), of sample_analyzer] o(2,3) oc by blast
  have 2: "optimize sample_analyzer q_union_orderby =
      Inl (RuntimeError ''UNION queries are not supported yet.'')"
    using order_by_not_supported [OF u(1), of sample_analyzer] u(2,3) by blast
  have "2 \<le> length (base_scans \<lparr>base_scans = [Scan [TargetEntry [] (ColumnVar 0 1)] [] 0 None [] 10 [1, 2],
                         Scan [] [] 0 None [] 20 [1 :: int] :: Expr Plan],
          join_predicates = [], const_predicates = [], cur_plan = None\<rparr>)"
    by simp
  with order_by_not_supported [OF j(1), of sample_analyzer] j(2,3) js
  have 3: "optimize sample_analyzer q_join_orderby = Inl (RuntimeError ''joins are not supported yet.'')"
    by blast
  have 4: "optimize sample_analyzer q_having_orderby = Inl AssertionFailed"
    using order_by_not_supported [OF h(1), of sample_analyzer] h(2,3) hc by blast
  have 5: "optimize sample_analyzer q_update_orderby = Inl AssertionFailed"
    using order_by_not_supported [OF d(1), of sample_analyzer] d(2,3) by simp
  from o oc u j js h hc d(1,2) 1 2 3 4 5 show ?thesis by simp
qed

subsection \<open>The current plan at the aggregation stage\<close>

text \<open>
  C9.  The query \<open>q_count_no_from\<close> declares one aggregate and has an empty range table.
  The scans stage builds no base scan, join assembly sets the current plan to null, and the
  aggregation stage, which does not return early, reads the target list through the null
  current plan in the first iteration of its loop over the target list.
\<close>

theorem aggregate_without_scan_null_plan:
  "get_num_aggs q_count_no_from = 1 \<and>
   optimize_scans sample_analyzer q_count_no_from new_Optimizer = Inr new_Optimizer \<and>
   optimize_joins (new_Optimizer :: Expr Optimizer) = Inr new_Optimizer \<and>
   cur_plan (new_Optimizer :: Expr Optimizer) = None \<and>
   optimize_aggs sample_analyzer q_count_no_from new_Optimizer = Inl NullDereference \<and>
   optimize sample_analyzer q_count_no_from = Inl NullDereference"
  by (simp add: sample_eval pipeline_eval q_count_no_from_def)

subsection \<open>Range-table indices and base scans of an INSERT\<close>

text \<open>
  C10.  The query \<open>q_insert_select\<close> is an INSERT whose range table holds the destination at
  index 0 and the source table at index 1.  The base scans vector holds one scan, built from
  the entry at index 1, and the column reference of the target list, with range-table index
  1, is looked up at position 1 of that vector, which is out of range.
\<close>

theorem insert_base_scans_shifted:
  "build_base_scans kINSERT True (get_rangetable q_insert_select) ([] :: Expr Plan list) =
     [new_Scan rte_s] \<and>
   get_rangetable q_insert_select ! 1 = rte_s \<and>
   collect_column_var sample_analyzer (get_expr (hd (get_targetlist q_insert_select))) =
     [ColumnVar 1 1] \<and>
   get_rte_idx sample_analyzer (ColumnVar 1 1) = 1 \<and>
   optimize_scans sample_analyzer q_insert_select new_Optimizer = Inl IndexOutOfRange \<and>
   optimize sample_analyzer q_insert_select = Inl IndexOutOfRange"
  by (simp add: sample_eval pipeline_eval q_insert_select_def)

end
